theory Spec2Isabelle
  imports Main
begin

section \<open>Data model\<close>

text \<open>
  The values \<open>json.load\<close> hands to the builder: \<open>None\<close>, booleans, integers, strings,
  lists and dicts. A dict keeps its insertion order, so it is an association list.
  Strings are Isabelle strings (code points below 256); Python floats are not modelled.
\<close>

datatype json =
    JNull
  | JBool bool
  | JInt int
  | JString string
  | JArray "json list"
  | JObject "(string \<times> json) list"

text \<open>
  The exceptions that travel through \<open>build\<close>: \<open>sys.exit(n)\<close> raises \<open>SystemExit\<close>,
  which is not an \<open>Exception\<close>; neither is \<open>KeyboardInterrupt\<close>. Every other exception
  is an \<open>Exception\<close> carrying its message.
\<close>

datatype exc = SystemExit int | KeyboardInterrupt | Exception string

text \<open>The blocking calls of the script, at which a \<open>KeyboardInterrupt\<close> can arrive.\<close>

datatype site = AtInput | AtDockerVersion | AtDockerInfo | AtAppsFile | AtDockerBuild

text \<open>
  What a run does, in order. \<open>Status message level\<close> is a call of \<open>_print_status\<close>
  (time stamp, colour codes and the leading pictograph of the message are left out),
  \<open>Print\<close> a plain \<open>print\<close>, \<open>Prompt\<close> a call of \<open>input\<close>, \<open>Run\<close> a
  \<open>subprocess.run\<close>, \<open>Popen\<close> the spawn of the build subprocess, \<open>BuildLine\<close> a line
  streamed from it. \<open>Interrupted s\<close> records that the blocking call \<open>s\<close> raised
  \<open>KeyboardInterrupt\<close>, \<open>CleanupCalled\<close> that \<open>_cleanup\<close> ran over the given temporary
  files.
\<close>

datatype event =
    Banner
  | Status string string
  | StatusApp nat json json
  | Print string
  | Prompt string
  | Run "string list"
  | PathExists string
  | OpenFile string
  | Popen "string list"
  | BuildLine string
  | LogException string
  | Interrupted site
  | CleanupCalled "string list"

text \<open>The \<open>argparse.Namespace\<close> returned by \<open>_parse_arguments\<close>.\<close>

record args =
  apps_file :: string
  tag :: string
  build_method :: string
  frappe_path :: string
  frappe_branch :: string
  python_version :: string
  node_version :: string
  debian_base :: string
  wkhtmltopdf_version :: string
  wkhtmltopdf_distro :: string
  interactive :: bool
  dry_run :: bool
  verbose :: bool
  quiet :: bool

text \<open>
  \<open>self.config\<close>: the dict \<open>_load_config\<close> builds from the namespace, with the same
  keys, to which \<open>build\<close> adds \<open>apps_json_base64\<close> before anything reads it.
\<close>

record config = args +
  apps_json_base64 :: string

text \<open>The outcome of one \<open>input()\<close>.\<close>

datatype input_result = Line string | InputInterrupt | InputEOF

text \<open>
  The outcome of a \<open>subprocess.run\<close> with captured output: the return code and the
  standard output, or \<open>FileNotFoundError\<close>, another exception, or an interrupt.
\<close>

datatype proc_result =
    Completed int string
  | CmdNotFound
  | CmdFailed string
  | CmdInterrupted

text \<open>
  The outcome of \<open>open(apps_file)\<close> followed by \<open>json.load\<close>: the loaded value, or
  \<open>FileNotFoundError\<close>, \<open>json.JSONDecodeError\<close>, another \<open>ValueError\<close> (a file that is
  not text), another exception (a directory, no permission), or an interrupt.
\<close>

datatype read_result =
    Loaded json
  | FileNotFound
  | JSONDecodeError string
  | OtherValueError string
  | ReadFailed string
  | ReadInterrupted

text \<open>
  The outcome of the build subprocess: the lines it wrote and then its return code, an
  interrupt, or an exception (of \<open>Popen\<close> itself when no line was read).
\<close>

datatype build_result =
    BuildExited "string list" int
  | BuildInterrupted "string list"
  | BuildRaised "string list" string

text \<open>
  Everything outside the script that a run depends on. \<open>elapsed\<close> is the text of the
  wall-clock duration with two decimals.
\<close>

record world =
  environ :: "string \<rightharpoonup> string"
  stdin_lines :: "input_result list"
  docker_version :: proc_result
  docker_info :: proc_result
  path_exists :: "string \<Rightarrow> bool"
  read_apps :: "string \<Rightarrow> read_result"
  docker_build :: "string list \<Rightarrow> build_result"
  elapsed :: string

section \<open>Runs: output so far, and a value or an exception\<close>

type_synonym 'a run = "event list \<times> (exc + 'a)"

definition ret :: "'a \<Rightarrow> 'a run" where
  "ret x = ([], Inr x)"

definition throw :: "exc \<Rightarrow> 'a run" where
  "throw e = ([], Inl e)"

definition emit :: "event \<Rightarrow> unit run" where
  "emit ev = ([ev], Inr ())"

definition seq :: "'a run \<Rightarrow> ('a \<Rightarrow> 'b run) \<Rightarrow> 'b run" where
  "seq m f =
     (case m of
        (es, Inl e) \<Rightarrow> (es, Inl e)
      | (es, Inr x) \<Rightarrow> (case f x of (es', r) \<Rightarrow> (es @ es', r)))"

definition emits :: "event list \<Rightarrow> unit run" where
  "emits evs = (evs, Inr ())"

section \<open>Strings\<close>

text \<open>\<open>str.strip()\<close>: the white space of Python among the code points below 256.\<close>

definition is_space :: "char \<Rightarrow> bool" where
  "is_space c =
     (let n = (of_char c :: nat)
      in (9 \<le> n \<and> n \<le> 13) \<or> (28 \<le> n \<and> n \<le> 32) \<or> n = 133 \<or> n = 160)"

definition strip :: "string \<Rightarrow> string" where
  "strip s = rev (dropWhile is_space (rev (dropWhile is_space s)))"

text \<open>\<open>sep.join(xs)\<close>.\<close>

fun join :: "string \<Rightarrow> string list \<Rightarrow> string" where
  "join sep [] = []"
| "join sep [x] = x"
| "join sep (x # y # ys) = x @ sep @ join sep (y # ys)"

text \<open>\<open>s.split(c)\<close> for a separator of one character: never an empty list.\<close>

fun split_on :: "char \<Rightarrow> string \<Rightarrow> string list" where
  "split_on c [] = [[]]"
| "split_on c (x # xs) =
     (if x = c then [] # split_on c xs
      else (case split_on c xs of
              [] \<Rightarrow> [[x]]
            | w # ws \<Rightarrow> (x # w) # ws))"

text \<open>\<open>s.startswith(p)\<close>.\<close>

fun starts_with :: "string \<Rightarrow> string \<Rightarrow> bool" where
  "starts_with [] s = True"
| "starts_with (p # ps) [] = False"
| "starts_with (p # ps) (ch # s) = (p = ch \<and> starts_with ps s)"

text \<open>\<open>xs[i]\<close> for \<open>i \<ge> 0\<close>: an \<open>IndexError\<close> out of range.\<close>

definition index :: "'a list \<Rightarrow> nat \<Rightarrow> exc + 'a" where
  "index xs i = (if i < length xs then Inr (xs ! i) else Inl (Exception ''list index out of range''))"

text \<open>Decimal digits of a natural number and of an integer, as \<open>str\<close> prints them.\<close>

definition digit_char :: "nat \<Rightarrow> char" where
  "digit_char d = char_of (48 + d)"

function show_nat :: "nat \<Rightarrow> string" where
  "show_nat n = (if n < 10 then [digit_char n] else show_nat (n div 10) @ [digit_char (n mod 10)])"
  by pat_completeness auto
termination
  by (relation "measure id") auto

declare show_nat.simps [simp del]

definition show_int :: "int \<Rightarrow> string" where
  "show_int i = (if i < 0 then CHR ''-'' # show_nat (nat (- i)) else show_nat (nat i))"

section \<open>Configuration: \<open>_load_config\<close> and \<open>_interactive_config\<close>\<close>

text \<open>The six recognised environment variables and the keys they write, in order.\<close>

definition env_mappings :: "(string \<times> string) list" where
  "env_mappings =
     [(''FRAPPE_PATH'', ''frappe_path''),
      (''FRAPPE_BRANCH'', ''frappe_branch''),
      (''PYTHON_VERSION'', ''python_version''),
      (''NODE_VERSION'', ''node_version''),
      (''DOCKER_TAG'', ''tag''),
      (''APPS_FILE'', ''apps_file'')]"

text \<open>\<open>self.config[key] = v\<close> and \<open>self.config[key]\<close> for the keys of \<open>env_mappings\<close>.\<close>

definition set_item :: "string \<Rightarrow> string \<Rightarrow> config \<Rightarrow> config" where
  "set_item key v c =
     (if key = ''frappe_path'' then c\<lparr>frappe_path := v\<rparr>
      else if key = ''frappe_branch'' then c\<lparr>frappe_branch := v\<rparr>
      else if key = ''python_version'' then c\<lparr>python_version := v\<rparr>
      else if key = ''node_version'' then c\<lparr>node_version := v\<rparr>
      else if key = ''tag'' then c\<lparr>tag := v\<rparr>
      else if key = ''apps_file'' then c\<lparr>apps_file := v\<rparr>
      else c)"

definition get_item :: "string \<Rightarrow> config \<Rightarrow> string" where
  "get_item key c =
     (if key = ''frappe_path'' then frappe_path c
      else if key = ''frappe_branch'' then frappe_branch c
      else if key = ''python_version'' then python_version c
      else if key = ''node_version'' then node_version c
      else if key = ''tag'' then tag c
      else if key = ''apps_file'' then apps_file c
      else [])"

text \<open>The loop over \<open>env_mappings\<close>: a variable that is set overwrites its key.\<close>

fun apply_env :: "(string \<rightharpoonup> string) \<Rightarrow> (string \<times> string) list \<Rightarrow> config \<Rightarrow> config run" where
  "apply_env env [] c = ret c"
| "apply_env env ((env_var, config_key) # rest) c =
     (case env env_var of
        None \<Rightarrow> apply_env env rest c
      | Some v \<Rightarrow>
          seq (emit (Status (''Using '' @ config_key @ '' from environment: '' @ v) ''INFO''))
            (\<lambda>_. apply_env env rest (set_item config_key v c)))"

definition load_config :: "world \<Rightarrow> args \<Rightarrow> config run" where
  "load_config w a = apply_env (environ w) env_mappings (args.extend a (config.fields []))"

text \<open>
  \<open>input(prompt)\<close>: the next line of standard input. An exhausted input is an
  \<open>EOFError\<close>.
\<close>

fun py_input :: "string \<Rightarrow> input_result list \<Rightarrow> (string \<times> input_result list) run" where
  "py_input p [] = ([Prompt p], Inl (Exception ''EOF when reading a line''))"
| "py_input p (Line s # rest) = ([Prompt p], Inr (s, rest))"
| "py_input p (InputInterrupt # rest) = ([Prompt p, Interrupted AtInput], Inl KeyboardInterrupt)"
| "py_input p (InputEOF # rest) = ([Prompt p], Inl (Exception ''EOF when reading a line''))"

text \<open>\<open>answer if answer else default\<close>.\<close>

definition or_default :: "string \<Rightarrow> string \<Rightarrow> string" where
  "or_default answer d = (if answer = [] then d else answer)"

definition interactive_config :: "input_result list \<Rightarrow> config \<Rightarrow> config run" where
  "interactive_config ins c =
     seq (emits [Status ''Interactive configuration mode'' ''HEADER'',
                 Print ''Build Method:'',
                 Print ''1. layered (faster, uses pre-built base images)'',
                 Print ''2. custom (slower, allows custom Python/Node versions)'']) (\<lambda>_.
     seq (py_input ''Choose build method (1-2) [1]: '' ins) (\<lambda>(choice, ins1).
     let c1 = c\<lparr>build_method := (if strip choice = ''2'' then ''custom'' else ''layered'')\<rparr> in
     seq (py_input ''Apps JSON file path [apps.json]: '' ins1) (\<lambda>(apps_file', ins2).
     let c2 = c1\<lparr>apps_file := or_default (strip apps_file') ''apps.json''\<rparr> in
     seq (py_input ''Docker image tag [frappe_custom:latest]: '' ins2) (\<lambda>(tag', ins3).
     let c3 = c2\<lparr>tag := or_default (strip tag') ''frappe_custom:latest''\<rparr> in
     seq (py_input ''Frappe branch [version-15]: '' ins3) (\<lambda>(branch, ins4).
     let c4 = c3\<lparr>frappe_branch := or_default (strip branch) ''version-15''\<rparr> in
     if build_method c4 = ''custom'' then
       seq (py_input ''Python version [3.11.6]: '' ins4) (\<lambda>(python_ver, ins5).
       let c5 = c4\<lparr>python_version := or_default (strip python_ver) ''3.11.6''\<rparr> in
       seq (py_input ''Node.js version [20.19.2]: '' ins5) (\<lambda>(node_ver, ins6).
       ret (c5\<lparr>node_version := or_default (strip node_ver) ''20.19.2''\<rparr>)))
     else ret c4)))))"

text \<open>
  The configuration \<open>build\<close> works with from its prerequisite check on: \<open>_load_config\<close>,
  then \<open>_interactive_config\<close> when the \<open>interactive\<close> flag is set.
\<close>

definition resolve_config :: "world \<Rightarrow> args \<Rightarrow> config run" where
  "resolve_config w a =
     seq (load_config w a) (\<lambda>c.
       if interactive c then interactive_config (stdin_lines w) c else ret c)"

section \<open>Build arguments and command: \<open>_get_build_args\<close>, \<open>_build_docker_command\<close>\<close>

text \<open>The dict of build arguments, in insertion order.\<close>

definition get_build_args :: "config \<Rightarrow> (string \<times> string) list" where
  "get_build_args c =
     [(''FRAPPE_PATH'', frappe_path c),
      (''FRAPPE_BRANCH'', frappe_branch c),
      (''APPS_JSON_BASE64'', apps_json_base64 c)]
     @ (if build_method c = ''custom'' then
          [(''PYTHON_VERSION'', python_version c),
           (''NODE_VERSION'', node_version c),
           (''DEBIAN_BASE'', debian_base c),
           (''WKHTMLTOPDF_VERSION'', wkhtmltopdf_version c),
           (''WKHTMLTOPDF_DISTRO'', wkhtmltopdf_distro c)]
        else [])"

definition build_docker_command :: "config \<Rightarrow> string list" where
  "build_docker_command c =
     [''docker'', ''build'']
     @ concat (map (\<lambda>(key, v). [''--build-arg'', key @ ''='' @ v]) (get_build_args c))
     @ [''--tag'', tag c]
     @ [''--file'', ''images/'' @ build_method c @ ''/Containerfile'']
     @ [''.'']"

text \<open>
  Reading a command back: the tokens that directly follow a \<open>--build-arg\<close> token, and the
  name such a token assigns (its text before the first \<open>=\<close>).
\<close>

fun build_arg_tokens :: "string list \<Rightarrow> string list" where
  "build_arg_tokens (x # y # rest) =
     (if x = ''--build-arg'' then y # build_arg_tokens (y # rest) else build_arg_tokens (y # rest))"
| "build_arg_tokens _ = []"

definition arg_name :: "string \<Rightarrow> string" where
  "arg_name t = takeWhile (\<lambda>ch. ch \<noteq> CHR ''='') t"

definition build_arg_names :: "string list \<Rightarrow> string list" where
  "build_arg_names cmd = map arg_name (build_arg_tokens cmd)"

section \<open>Prerequisites: \<open>_validate_prerequisites\<close>\<close>

text \<open>The first \<open>try\<close> block: \<open>docker --version\<close>. Only \<open>FileNotFoundError\<close> is handled.\<close>

definition check_docker :: "world \<Rightarrow> bool run" where
  "check_docker w =
     seq (emit (Run [''docker'', ''--version''])) (\<lambda>_.
       case docker_version w of
         Completed rc out \<Rightarrow>
           if rc \<noteq> 0 then
             seq (emit (Status ''Docker is not installed or not accessible'' ''ERROR'')) (\<lambda>_. ret False)
           else
             seq (emit (Status (''Docker: '' @ strip out) ''SUCCESS'')) (\<lambda>_. ret True)
       | CmdNotFound \<Rightarrow>
           seq (emit (Status ''Docker command not found'' ''ERROR'')) (\<lambda>_. ret False)
       | CmdFailed m \<Rightarrow> throw (Exception m)
       | CmdInterrupted \<Rightarrow>
           seq (emit (Interrupted AtDockerVersion)) (\<lambda>_. throw KeyboardInterrupt))"

text \<open>The second \<open>try\<close> block: \<open>docker info\<close>. Every \<open>Exception\<close> is handled.\<close>

definition check_daemon :: "world \<Rightarrow> bool run" where
  "check_daemon w =
     seq (emit (Run [''docker'', ''info''])) (\<lambda>_.
       case docker_info w of
         Completed rc out \<Rightarrow>
           if rc \<noteq> 0 then
             seq (emit (Status ''Docker daemon is not running'' ''ERROR'')) (\<lambda>_. ret False)
           else ret True
       | CmdNotFound \<Rightarrow>
           seq (emit (Status ''Docker daemon check failed: No such file or directory'' ''ERROR''))
             (\<lambda>_. ret False)
       | CmdFailed m \<Rightarrow>
           seq (emit (Status (''Docker daemon check failed: '' @ m) ''ERROR'')) (\<lambda>_. ret False)
       | CmdInterrupted \<Rightarrow>
           seq (emit (Interrupted AtDockerInfo)) (\<lambda>_. throw KeyboardInterrupt))"

definition required_files :: "string list" where
  "required_files = [''images/layered/Containerfile'', ''images/custom/Containerfile'']"

fun check_files :: "world \<Rightarrow> string list \<Rightarrow> bool run" where
  "check_files w [] = ret True"
| "check_files w (file_path # rest) =
     seq (emit (PathExists file_path)) (\<lambda>_.
       if \<not> path_exists w file_path then
         seq (emit (Status (''Required file missing: '' @ file_path) ''ERROR'')) (\<lambda>_. ret False)
       else check_files w rest)"

definition validate_prerequisites :: "world \<Rightarrow> bool run" where
  "validate_prerequisites w =
     seq (emit (Status ''Validating prerequisites...'' ''INFO'')) (\<lambda>_.
     seq (check_docker w) (\<lambda>docker_ok.
     if \<not> docker_ok then ret False else
     seq (check_daemon w) (\<lambda>daemon_ok.
     if \<not> daemon_ok then ret False else
     seq (check_files w required_files) (\<lambda>files_ok.
     if \<not> files_ok then ret False else
     seq (emit (Status ''All prerequisites validated'' ''SUCCESS'')) (\<lambda>_. ret True)))))"

section \<open>The apps file: \<open>_load_apps_config\<close>\<close>

text \<open>\<open>key in d\<close> and \<open>d[key]\<close> of a dict.\<close>

definition has_key :: "(string \<times> json) list \<Rightarrow> string \<Rightarrow> bool" where
  "has_key d k = (k \<in> set (map fst d))"

text \<open>
  The validation loop, with the index of \<open>enumerate\<close>; \<open>Inl\<close> is the message of the
  \<open>ValueError\<close> raised.
\<close>

fun check_apps :: "nat \<Rightarrow> json list \<Rightarrow> string + unit" where
  "check_apps i [] = Inr ()"
| "check_apps i (app # rest) =
     (case app of
        JObject d \<Rightarrow>
          if \<not> has_key d ''url'' then
            Inl (''App '' @ show_nat i @ '' missing required 'url' field'')
          else if \<not> has_key d ''branch'' then
            Inl (''App '' @ show_nat i @ '' missing required 'branch' field'')
          else check_apps (Suc i) rest
      | _ \<Rightarrow> Inl (''App '' @ show_nat i @ '' must be a JSON object''))"

definition validate_apps :: "json \<Rightarrow> string + json list" where
  "validate_apps apps_config =
     (case apps_config of
        JArray apps \<Rightarrow> (case check_apps 0 apps of Inl m \<Rightarrow> Inl m | Inr _ \<Rightarrow> Inr apps)
      | _ \<Rightarrow> Inl ''Apps configuration must be a JSON array'')"

text \<open>The loop that prints one line per app, numbered from 1.\<close>

fun print_apps :: "nat \<Rightarrow> json list \<Rightarrow> unit run" where
  "print_apps i [] = ret ()"
| "print_apps i (app # rest) =
     (case app of
        JObject d \<Rightarrow>
          (case (map_of d ''url'', map_of d ''branch'') of
             (Some u, Some b) \<Rightarrow> seq (emit (StatusApp i u b)) (\<lambda>_. print_apps (Suc i) rest)
           | _ \<Rightarrow> throw (Exception ''KeyError''))
      | _ \<Rightarrow> throw (Exception ''TypeError''))"

definition load_apps_config :: "world \<Rightarrow> string \<Rightarrow> json list run" where
  "load_apps_config w file =
     seq (emit (Status (''Loading apps configuration from '' @ file @ ''...'') ''INFO'')) (\<lambda>_.
     seq (emit (OpenFile file)) (\<lambda>_.
       case read_apps w file of
         Loaded apps_config \<Rightarrow>
           (case validate_apps apps_config of
              Inl m \<Rightarrow>
                seq (emit (Status (''Invalid apps configuration: '' @ m) ''ERROR''))
                  (\<lambda>_. throw (SystemExit 1))
            | Inr apps \<Rightarrow>
                seq (emit (Status (''Loaded '' @ show_nat (length apps) @ '' apps from configuration'')
                             ''SUCCESS'')) (\<lambda>_.
                seq (print_apps 1 apps) (\<lambda>_. ret apps)))
       | FileNotFound \<Rightarrow>
           seq (emit (Status (''Apps file not found: '' @ file) ''ERROR''))
             (\<lambda>_. throw (SystemExit 1))
       | JSONDecodeError m \<Rightarrow>
           seq (emit (Status (''Invalid JSON in apps file: '' @ m) ''ERROR''))
             (\<lambda>_. throw (SystemExit 1))
       | OtherValueError m \<Rightarrow>
           seq (emit (Status (''Invalid apps configuration: '' @ m) ''ERROR''))
             (\<lambda>_. throw (SystemExit 1))
       | ReadFailed m \<Rightarrow> throw (Exception m)
       | ReadInterrupted \<Rightarrow>
           seq (emit (Interrupted AtAppsFile)) (\<lambda>_. throw KeyboardInterrupt)))"

section \<open>Encoding the apps: \<open>json.dumps(apps_config, indent=2)\<close> and \<open>b64encode\<close>\<close>

definition hex_char :: "nat \<Rightarrow> char" where
  "hex_char d = (if d < 10 then char_of (48 + d) else char_of (87 + d))"

text \<open>
  The encoder's escapes with \<open>ensure_ascii\<close>: the quote, the backslash, the five short
  escapes, and \<open>\u00XX\<close> for every other code point outside the range from space to
  tilde.
\<close>

definition escape_char :: "char \<Rightarrow> string" where
  "escape_char c =
     (let n = (of_char c :: nat) in
      if n = 34 then [CHR 0x5C, CHR 0x22]
      else if n = 92 then [CHR 0x5C, CHR 0x5C]
      else if n = 10 then [CHR 0x5C, CHR ''n'']
      else if n = 13 then [CHR 0x5C, CHR ''r'']
      else if n = 9 then [CHR 0x5C, CHR ''t'']
      else if n = 8 then [CHR 0x5C, CHR ''b'']
      else if n = 12 then [CHR 0x5C, CHR ''f'']
      else if 32 \<le> n \<and> n \<le> 126 then [c]
      else [CHR 0x5C, CHR ''u'', CHR ''0'', CHR ''0'', hex_char (n div 16), hex_char (n mod 16)])"

definition dumps_string :: "string \<Rightarrow> string" where
  "dumps_string s = CHR 0x22 # concat (map escape_char s) @ [CHR 0x22]"

text \<open>A line break followed by the indentation of a nesting level: two spaces a level.\<close>

definition newline_indent :: "nat \<Rightarrow> string" where
  "newline_indent level = CHR 0x0A # replicate (2 * level) CHR '' ''"

text \<open>
  The encoder at a nesting level: an empty list or dict on one line, otherwise one item
  a line, the items separated by a comma and the line break, a key and its value by a
  colon and a space.
\<close>

fun dumps_at :: "nat \<Rightarrow> json \<Rightarrow> string"
  and dumps_items :: "nat \<Rightarrow> json list \<Rightarrow> string"
  and dumps_members :: "nat \<Rightarrow> (string \<times> json) list \<Rightarrow> string" where
  "dumps_at level JNull = ''null''"
| "dumps_at level (JBool b) = (if b then ''true'' else ''false'')"
| "dumps_at level (JInt i) = show_int i"
| "dumps_at level (JString s) = dumps_string s"
| "dumps_at level (JArray []) = ''[]''"
| "dumps_at level (JArray (x # xs)) =
     ''['' @ newline_indent (Suc level) @ dumps_items (Suc level) (x # xs)
     @ newline_indent level @ '']''"
| "dumps_at level (JObject []) = ''{}''"
| "dumps_at level (JObject (m # ms)) =
     ''{'' @ newline_indent (Suc level) @ dumps_members (Suc level) (m # ms)
     @ newline_indent level @ ''}''"
| "dumps_items level [] = []"
| "dumps_items level [x] = dumps_at level x"
| "dumps_items level (x # y # ys) =
     dumps_at level x @ '','' @ newline_indent level @ dumps_items level (y # ys)"
| "dumps_members level [] = []"
| "dumps_members level [(k, v)] = dumps_string k @ '': '' @ dumps_at level v"
| "dumps_members level ((k, v) # m # ms) =
     dumps_string k @ '': '' @ dumps_at level v @ '','' @ newline_indent level
     @ dumps_members level (m # ms)"

definition json_dumps :: "json \<Rightarrow> string" where
  "json_dumps v = dumps_at 0 v"

text \<open>Base64 with the standard alphabet and \<open>=\<close> padding, over the bytes of the text.\<close>

definition b64_alphabet :: string where
  "b64_alphabet = ''ABCDEFGHIJKLMNOPQRSTUVWXYZabcdefghijklmnopqrstuvwxyz0123456789+/''"

definition b64_char :: "nat \<Rightarrow> char" where
  "b64_char n = b64_alphabet ! n"

fun b64encode :: "string \<Rightarrow> string" where
  "b64encode [] = []"
| "b64encode [a] =
     (let x = (of_char a :: nat)
      in [b64_char (x div 4), b64_char ((x mod 4) * 16), CHR ''='', CHR ''=''])"
| "b64encode [a, b] =
     (let x = (of_char a :: nat); y = (of_char b :: nat)
      in [b64_char (x div 4), b64_char ((x mod 4) * 16 + y div 16),
          b64_char ((y mod 16) * 4), CHR ''=''])"
| "b64encode (a # b # c # rest) =
     (let x = (of_char a :: nat); y = (of_char b :: nat); z = (of_char c :: nat)
      in [b64_char (x div 4), b64_char ((x mod 4) * 16 + y div 16),
          b64_char ((y mod 16) * 4 + z div 64), b64_char (z mod 64)]
         @ b64encode rest)"

text \<open>The two lines of \<open>build\<close> that compute the \<open>APPS_JSON_BASE64\<close> value.\<close>

definition encode_apps :: "json list \<Rightarrow> string" where
  "encode_apps apps_config = b64encode (json_dumps (JArray apps_config))"

section \<open>Execution and reports\<close>

definition execute_build :: "world \<Rightarrow> config \<Rightarrow> string list \<Rightarrow> bool run" where
  "execute_build w c cmd =
     (if dry_run c then
        seq (emits [Status ''DRY RUN - Would execute:'' ''WARNING'',
                    Status (''   '' @ join '' '' cmd) ''INFO'']) (\<lambda>_. ret True)
      else
        seq (emits [Status ''Starting Docker build...'' ''INFO'',
                    Status (''Command: '' @ join '' '' cmd) ''INFO'',
                    Popen cmd]) (\<lambda>_.
          case docker_build w cmd of
            BuildExited ls rc \<Rightarrow>
              seq (emits (map BuildLine ls)) (\<lambda>_.
                if rc = 0 then
                  seq (emit (Status ''Docker build completed successfully!'' ''SUCCESS''))
                    (\<lambda>_. ret True)
                else
                  seq (emit (Status (''Docker build failed with exit code '' @ show_int rc) ''ERROR''))
                    (\<lambda>_. ret False))
          | BuildInterrupted ls \<Rightarrow>
              seq (emits (map BuildLine ls @ [Interrupted AtDockerBuild,
                     Status ''Build interrupted by user'' ''WARNING''])) (\<lambda>_. ret False)
          | BuildRaised ls m \<Rightarrow>
              seq (emits (map BuildLine ls @ [Status (''Build failed with error: '' @ m) ''ERROR'']))
                (\<lambda>_. ret False)))"

text \<open>\<open>f"  {key:15}: {value}"\<close>: the key padded to fifteen characters.\<close>

definition config_line :: "string \<Rightarrow> string \<Rightarrow> event" where
  "config_line key v = Print (''  '' @ key @ replicate (15 - length key) CHR '' '' @ '': '' @ v)"

definition print_config_summary :: "config \<Rightarrow> unit run" where
  "print_config_summary c =
     emits ([Status ''Configuration Summary'' ''HEADER'',
             config_line ''Build Method'' (build_method c),
             config_line ''Apps File'' (apps_file c),
             config_line ''Docker Tag'' (tag c),
             config_line ''Frappe Path'' (frappe_path c),
             config_line ''Frappe Branch'' (frappe_branch c)]
            @ (if build_method c = ''custom'' then
                 [config_line ''Python Version'' (python_version c),
                  config_line ''Node.js Version'' (node_version c),
                  config_line ''Debian Base'' (debian_base c)]
               else []))"

text \<open>
  The summary. On success its last line prints the two parts of the tag around the
  colon, \<open>tag.split(':')[0]\<close> and \<open>tag.split(':')[1]\<close>.
\<close>

definition print_build_summary :: "world \<Rightarrow> config \<Rightarrow> bool \<Rightarrow> unit run" where
  "print_build_summary w c success =
     (if success then
        seq (emits [Status ''Build Summary'' ''SUCCESS'',
                    Print ''  Status: SUCCESS'',
                    Print (''  Duration: '' @ elapsed w @ '' seconds''),
                    Print (''  Tag: '' @ tag c),
                    Print (''  Method: '' @ build_method c),
                    Print ''Next steps:'',
                    Print (''  Test the image: docker run --rm '' @ tag c @ '' --version''),
                    Print (''  Push to registry: docker push '' @ tag c)]) (\<lambda>_.
        case index (split_on CHR '':'' (tag c)) 0 of
          Inl e \<Rightarrow> throw e
        | Inr img \<Rightarrow>
            (case index (split_on CHR '':'' (tag c)) 1 of
               Inl e \<Rightarrow> throw e
             | Inr t \<Rightarrow>
                 emit (Print (''  Use in compose: CUSTOM_IMAGE='' @ img @ '' CUSTOM_TAG='' @ t))))
      else
        emits [Status ''Build Failed'' ''ERROR'',
               Print ''  Status: FAILED'',
               Print (''  Duration: '' @ elapsed w @ '' seconds''),
               Print ''  Check logs: build_custom_image.log''])"

text \<open>
  \<open>_cleanup\<close> over \<open>self.temp_files\<close>: a file that exists is removed and reported.
\<close>

definition cleanup :: "world \<Rightarrow> string list \<Rightarrow> event list" where
  "cleanup w temp_files =
     CleanupCalled temp_files
     # concat (map (\<lambda>f. if path_exists w f
                         then [Status (''Cleaned up temporary file: '' @ f) ''INFO''] else [])
                temp_files)"

section \<open>The main method: \<open>build\<close>\<close>

text \<open>
  The \<open>try\<close> block of \<open>build\<close> from the encoding of the loaded apps to its last
  line: the base64 value, the configuration summary, the command, its execution, the
  build summary, and \<open>sys.exit\<close>.
\<close>

definition build_from_apps :: "world \<Rightarrow> config \<Rightarrow> json list \<Rightarrow> unit run" where
  "build_from_apps w c apps_config =
     (let c' = c\<lparr>apps_json_base64 := encode_apps apps_config\<rparr> in
      seq (if \<not> quiet c' then print_config_summary c' else ret ()) (\<lambda>_.
      let cmd = build_docker_command c' in
      seq (execute_build w c' cmd) (\<lambda>success.
      seq (if \<not> quiet c' then print_build_summary w c' success else ret ()) (\<lambda>_.
      throw (SystemExit (if success then 0 else 1))))))"

text \<open>
  The whole \<open>try\<close> block, from the namespace \<open>_parse_arguments\<close> returned. It always
  ends in a \<open>sys.exit\<close> or another exception.
\<close>

definition build_body :: "world \<Rightarrow> args \<Rightarrow> unit run" where
  "build_body w a =
     seq (if \<not> quiet a then emit Banner else ret ()) (\<lambda>_.
     seq (resolve_config w a) (\<lambda>c.
     seq (validate_prerequisites w) (\<lambda>ok.
     if \<not> ok then throw (SystemExit 1) else
     seq (load_apps_config w (apps_file c)) (\<lambda>apps_config.
     build_from_apps w c apps_config))))"

text \<open>
  The handlers and the \<open>finally\<close> clause: the events of the whole run and the exit
  status of the process. \<open>self.temp_files\<close> is empty throughout: nothing ever adds to it.
\<close>

definition build :: "world \<Rightarrow> args \<Rightarrow> event list \<times> int" where
  "build w a =
     (case build_body w a of
        (es, Inl KeyboardInterrupt) \<Rightarrow>
          (es @ [Status ''Build interrupted by user'' ''WARNING''] @ cleanup w [], 130)
      | (es, Inl (Exception m)) \<Rightarrow>
          (es @ [Status (''Unexpected error: '' @ m) ''ERROR'',
                 LogException ''Unexpected error occurred''] @ cleanup w [], 1)
      | (es, Inl (SystemExit n)) \<Rightarrow> (es @ cleanup w [], n)
      | (es, Inr _) \<Rightarrow> (es @ cleanup w [], 0))"

section \<open>Reading the payload back: base64 decoding and \<open>json.loads\<close>\<close>
























section \<open>Inputs used in examples\<close>

text \<open>The namespace of an invocation without options: the defaults of \<open>_parse_arguments\<close>.\<close>

definition default_args :: args where
  "default_args =
     \<lparr>apps_file = ''apps.json'', tag = ''frappe_custom:latest'', build_method = ''layered'',
      frappe_path = ''https://github.com/frappe/frappe'', frappe_branch = ''version-15'',
      python_version = ''3.11.6'', node_version = ''20.19.2'', debian_base = ''bookworm'',
      wkhtmltopdf_version = ''0.12.6.1-3'', wkhtmltopdf_distro = ''bookworm'',
      interactive = False, dry_run = False, verbose = False, quiet = False\<rparr>"

definition sample_apps :: "json list" where
  "sample_apps = [JObject [(''url'', JString ''a''), (''branch'', JString ''b'')]]"

text \<open>
  A machine on which everything works: no environment variable is set, docker answers,
  both Containerfiles exist, the apps file holds \<open>sample_apps\<close>, the build prints one
  line and exits with 0.
\<close>

definition good_world :: world where
  "good_world =
     \<lparr>environ = Map.empty, stdin_lines = [],
      docker_version = Completed 0 ''Docker version 27.0.3'',
      docker_info = Completed 0 [],
      path_exists = (\<lambda>_. True),
      read_apps = (\<lambda>_. Loaded (JArray sample_apps)),
      docker_build = (\<lambda>_. BuildExited [''Step 1/9''] 0),
      elapsed = ''1.00''\<rparr>"

definition custom_args :: args where
  "custom_args = default_args\<lparr>build_method := ''custom''\<rparr>"

section \<open>Notions the properties are stated with\<close>

text \<open>
  A command has a build argument \<open>name\<close> with value \<open>v\<close> when the token \<open>name=v\<close>
  directly follows a \<open>--build-arg\<close> token.
\<close>

definition has_build_arg :: "string list \<Rightarrow> string \<Rightarrow> string \<Rightarrow> bool" where
  "has_build_arg cmd name v = (name @ ''='' @ v \<in> set (build_arg_tokens cmd))"

text \<open>The five build arguments of the custom build method.\<close>

definition custom_arg_names :: "string list" where
  "custom_arg_names =
     [''PYTHON_VERSION'', ''NODE_VERSION'', ''DEBIAN_BASE'',
      ''WKHTMLTOPDF_VERSION'', ''WKHTMLTOPDF_DISTRO'']"

text \<open>
  An entry the validation loop lets through: an object with a \<open>url\<close> key and a
  \<open>branch\<close> key.
\<close>

definition has_fields :: "json \<Rightarrow> bool" where
  "has_fields app =
     (case app of JObject d \<Rightarrow> has_key d ''url'' \<and> has_key d ''branch'' | _ \<Rightarrow> False)"

text \<open>An entry whose field \<open>k\<close> is present and is a string that is not empty.\<close>

definition nonempty_string_field :: "json \<Rightarrow> string \<Rightarrow> bool" where
  "nonempty_string_field app k =
     (case app of
        JObject d \<Rightarrow> (case map_of d k of Some (JString s) \<Rightarrow> s \<noteq> [] | _ \<Rightarrow> False)
      | _ \<Rightarrow> False)"


text \<open>
  An apps file as the claims about rejection describe it: missing, not JSON, not an
  array, or an array with an element that lacks \<open>url\<close> or \<open>branch\<close>.
\<close>

definition missing_field :: "json \<Rightarrow> bool" where
  "missing_field app =
     (case app of JObject d \<Rightarrow> \<not> has_key d ''url'' \<or> \<not> has_key d ''branch'' | _ \<Rightarrow> True)"

definition bad_apps_file :: "read_result \<Rightarrow> bool" where
  "bad_apps_file r =
     (case r of
        FileNotFound \<Rightarrow> True
      | JSONDecodeError m \<Rightarrow> True
      | Loaded (JArray apps) \<Rightarrow> list_ex missing_field apps
      | Loaded _ \<Rightarrow> True
      | _ \<Rightarrow> False)"

text \<open>The apps file at a path loads and passes validation.\<close>

definition apps_file_valid :: "world \<Rightarrow> string \<Rightarrow> bool" where
  "apps_file_valid w file =
     (case read_apps w file of
        Loaded (JArray apps) \<Rightarrow> list_all has_fields apps
      | _ \<Rightarrow> False)"

text \<open>
  A docker call that completes with return code 0, and a machine that passes all four
  prerequisite checks.
\<close>

definition proc_ok :: "proc_result \<Rightarrow> bool" where
  "proc_ok r = (case r of Completed rc out \<Rightarrow> rc = 0 | _ \<Rightarrow> False)"

definition prerequisites_met :: "world \<Rightarrow> bool" where
  "prerequisites_met w =
     (proc_ok (docker_version w) \<and> proc_ok (docker_info w)
      \<and> list_all (path_exists w) required_files)"

text \<open>
  The command with which a run reaches \<open>_execute_build\<close>, when it does: the
  configuration is resolved, the prerequisites hold and the apps are loaded.
\<close>

definition reached_command :: "world \<Rightarrow> args \<Rightarrow> string list option" where
  "reached_command w a =
     (case snd (resolve_config w a) of
        Inr c \<Rightarrow>
          (case snd (validate_prerequisites w) of
             Inr True \<Rightarrow>
               (case snd (load_apps_config w (apps_file c)) of
                  Inr apps \<Rightarrow>
                    Some (build_docker_command (c\<lparr>apps_json_base64 := encode_apps apps\<rparr>))
                | Inl e \<Rightarrow> None)
           | _ \<Rightarrow> None)
      | Inl e \<Rightarrow> None)"

text \<open>The report of a build that exited with a code other than 0.\<close>

definition build_failed_report :: "event \<Rightarrow> bool" where
  "build_failed_report e =
     (case e of
        Status m l \<Rightarrow> starts_with ''Docker build failed with exit code '' m
      | _ \<Rightarrow> False)"

definition is_interrupted :: "event \<Rightarrow> bool" where
  "is_interrupted e = (case e of Interrupted s \<Rightarrow> True | _ \<Rightarrow> False)"

text \<open>
  The events of the steps that come before the execution: no warning, no line that
  starts like the dry-run command line or like a report of the build, no failure
  status, no spawn, no output of the build, no cleanup, no interrupt of the build.
\<close>

definition early_event :: "event \<Rightarrow> bool" where
  "early_event e =
     (case e of
        Status m l \<Rightarrow>
          l \<noteq> ''WARNING'' \<and> \<not> starts_with ''   '' m \<and> \<not> starts_with ''Docker build'' m
      | Print t \<Rightarrow> t \<noteq> ''  Status: FAILED''
      | Popen cmd \<Rightarrow> False
      | BuildLine l \<Rightarrow> False
      | CleanupCalled fs \<Rightarrow> False
      | Interrupted s \<Rightarrow> s \<noteq> AtDockerBuild
      | _ \<Rightarrow> True)"

text \<open>
  A step before the execution: its events are early ones, and it records an interrupt
  exactly when it raises \<open>KeyboardInterrupt\<close>. A step that never calls \<open>sys.exit\<close>.
\<close>

definition early_run :: "'a run \<Rightarrow> bool" where
  "early_run m =
     (list_all early_event (fst m)
      \<and> (list_ex is_interrupted (fst m) = (snd m = Inl KeyboardInterrupt)))"

definition no_exit :: "'a run \<Rightarrow> bool" where
  "no_exit m = (case snd m of Inl (SystemExit n) \<Rightarrow> False | _ \<Rightarrow> True)"

text \<open>
  An invocation with \<open>--tag baz:qux\<close> on a machine where \<open>DOCKER_TAG=foo:bar\<close> is set,
  and the same machine with interactive answers: layered, no apps file, the tag
  \<open>mine:v1\<close>, nothing else.
\<close>

definition tag_env_world :: world where
  "tag_env_world = good_world\<lparr>environ := [''DOCKER_TAG'' \<mapsto> ''foo:bar'']\<rparr>"

definition tag_flag_args :: args where
  "tag_flag_args = default_args\<lparr>tag := ''baz:qux''\<rparr>"


text \<open>
  Machines that differ from \<open>good_world\<close> in one respect: the apps file holds a JSON
  object, the build is interrupted after its first line, \<open>docker info\<close> is interrupted,
  the build exits with code 3.
\<close>

definition object_apps_world :: world where
  "object_apps_world = good_world\<lparr>read_apps := (\<lambda>_. Loaded (JObject [(''url'', JString ''a'')]))\<rparr>"

definition interrupted_build_world :: world where
  "interrupted_build_world = good_world\<lparr>docker_build := (\<lambda>_. BuildInterrupted [''Step 1/9''])\<rparr>"

definition interrupted_info_world :: world where
  "interrupted_info_world = good_world\<lparr>docker_info := CmdInterrupted\<rparr>"

definition failing_build_world :: world where
  "failing_build_world = good_world\<lparr>docker_build := (\<lambda>_. BuildExited [''Step 1/9''] 3)\<rparr>"

text \<open>
  A character of ASCII. The text \<open>json.dumps\<close> returns holds nothing else, so
  \<open>.encode()\<close> gives its characters as bytes and cannot fail.
\<close>

definition ascii :: "char \<Rightarrow> bool" where
  "ascii ch = ((of_char ch :: nat) < 128)"

section \<open>Properties\<close>

subsection \<open>The composed command\<close>

lemma build_arg_tokens_command:
  "build_arg_tokens (build_docker_command c) =
     map (\<lambda>(key, v). key @ ''='' @ v) (get_build_args c)
     @ (if tag c = ''--build-arg'' then [''--file''] else [])"
  by (simp add: build_docker_command_def get_build_args_def)

lemma build_arg_names_command:
  "build_arg_names (build_docker_command c) =
     map fst (get_build_args c) @ (if tag c = ''--build-arg'' then [''--file''] else [])"
  by (auto simp: build_arg_names_def build_arg_tokens_command get_build_args_def arg_name_def)

text \<open>
  Claim C2. For every configuration, the composed command has \<open>--build-arg\<close> entries for
  \<open>FRAPPE_PATH\<close>, \<open>FRAPPE_BRANCH\<close> and \<open>APPS_JSON_BASE64\<close>, each with the value of the
  configuration. With the build method \<open>custom\<close> it also has entries for
  \<open>PYTHON_VERSION\<close>, \<open>NODE_VERSION\<close>, \<open>DEBIAN_BASE\<close>, \<open>WKHTMLTOPDF_VERSION\<close> and
  \<open>WKHTMLTOPDF_DISTRO\<close>; with the build method \<open>layered\<close> no \<open>--build-arg\<close> entry
  names any of these five.
\<close>

theorem build_command_args:
  "has_build_arg (build_docker_command c) ''FRAPPE_PATH'' (frappe_path c)
   \<and> has_build_arg (build_docker_command c) ''FRAPPE_BRANCH'' (frappe_branch c)
   \<and> has_build_arg (build_docker_command c) ''APPS_JSON_BASE64'' (apps_json_base64 c)
   \<and> (build_method c = ''custom'' \<longrightarrow>
        has_build_arg (build_docker_command c) ''PYTHON_VERSION'' (python_version c)
      \<and> has_build_arg (build_docker_command c) ''NODE_VERSION'' (node_version c)
      \<and> has_build_arg (build_docker_command c) ''DEBIAN_BASE'' (debian_base c)
      \<and> has_build_arg (build_docker_command c) ''WKHTMLTOPDF_VERSION'' (wkhtmltopdf_version c)
      \<and> has_build_arg (build_docker_command c) ''WKHTMLTOPDF_DISTRO'' (wkhtmltopdf_distro c))
   \<and> (build_method c = ''layered'' \<longrightarrow>
        (\<forall>name \<in> set custom_arg_names.
           name \<notin> set (build_arg_names (build_docker_command c))))"
  by (simp add: has_build_arg_def build_arg_tokens_command build_arg_names_command
      get_build_args_def custom_arg_names_def)

theorem build_command_args_witness:
  "has_build_arg
     (build_docker_command (args.extend custom_args (config.fields ''W10='')))
     ''PYTHON_VERSION'' ''3.11.6''
   \<and> has_build_arg
     (build_docker_command (args.extend custom_args (config.fields ''W10='')))
     ''APPS_JSON_BASE64'' ''W10=''
   \<and> ''PYTHON_VERSION'' \<notin>
     set (build_arg_names (build_docker_command (args.extend default_args (config.fields ''W10=''))))
   \<and> ''WKHTMLTOPDF_DISTRO'' \<notin>
     set (build_arg_names (build_docker_command (args.extend default_args (config.fields ''W10=''))))"
  using build_command_args [of "args.extend custom_args (config.fields ''W10='')"]
    build_command_args [of "args.extend default_args (config.fields ''W10='')"]
  by (simp add: custom_args_def default_args_def args.defs config.defs custom_arg_names_def)

subsection \<open>Runs and the steps of \<open>build\<close>\<close>

lemma check_apps_Inr: "(check_apps i apps = Inr u) = list_all has_fields apps"
  by (induction apps arbitrary: i) (auto simp: has_fields_def split: json.splits)

lemma validate_apps_Inr_iff:
  "(validate_apps apps_config = Inr apps)
     = (apps_config = JArray apps \<and> list_all has_fields apps)"
proof (cases apps_config)
  case (JArray xs)
  then show ?thesis
    using check_apps_Inr [of 0 xs "()"]
    by (auto simp: validate_apps_def split: sum.splits)
qed (simp_all add: validate_apps_def)

lemma fst_seq: "fst (seq m f) = fst m @ (case snd m of Inl e \<Rightarrow> [] | Inr x \<Rightarrow> fst (f x))"
  by (auto simp: seq_def split: prod.splits sum.splits)

lemma snd_seq: "snd (seq m f) = (case snd m of Inl e \<Rightarrow> Inl e | Inr x \<Rightarrow> snd (f x))"
  by (auto simp: seq_def split: prod.splits sum.splits)

lemma run_simps [simp]:
  "fst (ret x) = []" "snd (ret x) = Inr x"
  "fst (throw e) = []" "snd (throw e) = Inl e"
  "fst (emit ev) = [ev]" "snd (emit ev) = Inr ()"
  "fst (emits evs) = evs" "snd (emits evs) = Inr ()"
  by (simp_all add: ret_def throw_def emit_def emits_def)

lemma get_set_item_same:
  "key \<in> snd ` set env_mappings \<Longrightarrow> get_item key (set_item key v c) = v"
  by (auto simp: env_mappings_def get_item_def set_item_def)

lemma get_set_item_other:
  "key \<noteq> key' \<Longrightarrow> get_item key (set_item key' v c) = get_item key c"
  by (auto simp: get_item_def set_item_def)

lemma apply_env_untouched:
  "key \<notin> snd ` set ms \<Longrightarrow> snd (apply_env env ms c) = Inr c' \<Longrightarrow> get_item key c' = get_item key c"
proof (induction ms arbitrary: c)
  case Nil
  then show ?case by (simp add: snd_seq)
next
  case (Cons m ms)
  obtain ev k where m: "m = (ev, k)" by (cases m)
  with Cons.prems have k: "key \<noteq> k" and rest: "key \<notin> snd ` set ms" by auto
  show ?case
  proof (cases "env ev")
    case None
    with Cons.prems m have "snd (apply_env env ms c) = Inr c'" by (simp add: snd_seq)
    with Cons.IH rest show ?thesis by blast
  next
    case (Some v)
    with Cons.prems m have "snd (apply_env env ms (set_item k v c)) = Inr c'" by (simp add: snd_seq)
    with Cons.IH rest have "get_item key c' = get_item key (set_item k v c)" by blast
    with k show ?thesis by (simp add: get_set_item_other)
  qed
qed

lemma apply_env_set:
  "distinct (map snd ms) \<Longrightarrow> (ev, key) \<in> set ms \<Longrightarrow> env ev = Some v
   \<Longrightarrow> key \<in> snd ` set env_mappings
   \<Longrightarrow> snd (apply_env env ms c) = Inr c' \<Longrightarrow> get_item key c' = v"
proof (induction ms arbitrary: c)
  case Nil
  then show ?case by (simp add: snd_seq)
next
  case (Cons m ms)
  obtain ev' k where m: "m = (ev', k)" by (cases m)
  from Cons.prems m have fresh: "k \<notin> snd ` set ms" and dist: "distinct (map snd ms)" by auto
  show ?case
  proof (cases "(ev, key) = (ev', k)")
    case True
    with Cons.prems m have run: "snd (apply_env env ms (set_item key v c)) = Inr c'" by (simp add: snd_seq)
    from True fresh have "key \<notin> snd ` set ms" by (simp add: snd_seq)
    with run have "get_item key c' = get_item key (set_item key v c)"
      using apply_env_untouched by blast
    with Cons.prems show ?thesis by (simp add: get_set_item_same)
  next
    case False
    with Cons.prems m have mem: "(ev, key) \<in> set ms" by auto
    show ?thesis
    proof (cases "env ev'")
      case None
      with Cons.prems m have "snd (apply_env env ms c) = Inr c'" by (simp add: snd_seq)
      with Cons.IH [OF dist mem] Cons.prems show ?thesis by blast
    next
      case (Some v')
      with Cons.prems m have "snd (apply_env env ms (set_item k v' c)) = Inr c'" by (simp add: snd_seq)
      with Cons.IH [OF dist mem] Cons.prems show ?thesis by blast
    qed
  qed
qed

lemma load_config_env:
  assumes "(ev, key) \<in> set env_mappings" and "environ w ev = Some v"
    and "snd (load_config w a) = Inr c"
  shows "get_item key c = v"
proof -
  have "distinct (map snd env_mappings)" by (simp add: env_mappings_def)
  moreover from assms(1) have "key \<in> snd ` set env_mappings" by force
  ultimately show ?thesis
    using assms unfolding load_config_def by (rule_tac apply_env_set) auto
qed

lemma early_run_seq:
  assumes "early_run m" and "\<And>x. snd m = Inr x \<Longrightarrow> early_run (f x)"
  shows "early_run (seq m f)"
  using assms by (cases "snd m") (auto simp: early_run_def fst_seq snd_seq)

lemma no_exit_seq:
  assumes "no_exit m" and "\<And>x. snd m = Inr x \<Longrightarrow> no_exit (f x)"
  shows "no_exit (seq m f)"
  using assms by (cases "snd m") (auto simp: no_exit_def snd_seq)

lemma early_run_ret [simp]: "early_run (ret x)"
  by (simp add: early_run_def)

lemma no_exit_ret [simp]: "no_exit (ret x)"
  by (simp add: no_exit_def)

lemma early_run_emit: "early_event ev \<Longrightarrow> \<not> is_interrupted ev \<Longrightarrow> early_run (emit ev)"
  by (simp add: early_run_def)

lemma no_exit_emit [simp]: "no_exit (emit ev)" "no_exit (emits evs)"
  by (simp_all add: no_exit_def)

lemma early_apply_env: "early_run (apply_env env ms c)"
proof (induction ms arbitrary: c)
  case Nil
  then show ?case by simp
next
  case (Cons m ms)
  obtain ev key where m: "m = (ev, key)" by (cases m)
  show ?case
  proof (cases "env ev")
    case None
    with Cons.IH m show ?thesis by simp
  next
    case (Some v)
    have "early_run (emit (Status (''Using '' @ key @ '' from environment: '' @ v) ''INFO''))"
      by (rule early_run_emit) (simp_all add: early_event_def is_interrupted_def)
    with Cons.IH Some m show ?thesis by (simp add: early_run_seq)
  qed
qed

lemma no_exit_apply_env: "no_exit (apply_env env ms c)"
proof (induction ms arbitrary: c)
  case Nil
  then show ?case by simp
next
  case (Cons m ms)
  obtain ev key where m: "m = (ev, key)" by (cases m)
  with Cons.IH show ?case by (cases "env ev") (simp_all add: no_exit_seq)
qed

lemma early_py_input: "early_run (py_input p ins)"
  by (cases "(p, ins)" rule: py_input.cases)
    (simp_all add: early_run_def early_event_def is_interrupted_def)

lemma no_exit_py_input: "no_exit (py_input p ins)"
  by (cases "(p, ins)" rule: py_input.cases) (simp_all add: no_exit_def)

lemma early_run_seq_prod:
  assumes "early_run m" and "\<And>x y. snd m = Inr (x, y) \<Longrightarrow> early_run (f x y)"
  shows "early_run (seq m (\<lambda>(x, y). f x y))"
  using assms by (intro early_run_seq) auto

lemma no_exit_seq_prod:
  assumes "no_exit m" and "\<And>x y. snd m = Inr (x, y) \<Longrightarrow> no_exit (f x y)"
  shows "no_exit (seq m (\<lambda>(x, y). f x y))"
  using assms by (intro no_exit_seq) auto

lemma early_run_if:
  "(b \<Longrightarrow> early_run x) \<Longrightarrow> (\<not> b \<Longrightarrow> early_run y) \<Longrightarrow> early_run (if b then x else y)"
  by simp

lemma no_exit_if:
  "(b \<Longrightarrow> no_exit x) \<Longrightarrow> (\<not> b \<Longrightarrow> no_exit y) \<Longrightarrow> no_exit (if b then x else y)"
  by simp

lemma early_interactive_config: "early_run (interactive_config ins c)"
proof -
  have start: "early_run (emits [Status ''Interactive configuration mode'' ''HEADER'',
                 Print ''Build Method:'',
                 Print ''1. layered (faster, uses pre-built base images)'',
                 Print ''2. custom (slower, allows custom Python/Node versions)''])"
    by (simp add: early_run_def early_event_def is_interrupted_def)
  show ?thesis
    unfolding interactive_config_def Let_def
    by (intro early_run_seq_prod early_run_seq early_run_if early_py_input early_run_ret start)
qed

lemma no_exit_interactive_config: "no_exit (interactive_config ins c)"
  unfolding interactive_config_def Let_def
  by (intro no_exit_seq_prod no_exit_seq no_exit_if no_exit_py_input no_exit_ret no_exit_emit)

lemma early_resolve_config: "early_run (resolve_config w a)"
  unfolding resolve_config_def load_config_def
  by (intro early_run_seq early_run_if early_apply_env early_interactive_config early_run_ret)

lemma no_exit_resolve_config: "no_exit (resolve_config w a)"
  unfolding resolve_config_def load_config_def
  by (intro no_exit_seq no_exit_if no_exit_apply_env no_exit_interactive_config no_exit_ret)

lemma early_check_docker: "early_run (check_docker w)"
  unfolding check_docker_def
  by (cases "docker_version w")
    (auto simp: early_run_def early_event_def is_interrupted_def fst_seq snd_seq)

lemma no_exit_check_docker: "no_exit (check_docker w)"
  unfolding check_docker_def
  by (cases "docker_version w") (auto simp: no_exit_def snd_seq)

lemma early_check_daemon: "early_run (check_daemon w)"
  unfolding check_daemon_def
  by (cases "docker_info w")
    (auto simp: early_run_def early_event_def is_interrupted_def fst_seq snd_seq)

lemma no_exit_check_daemon: "no_exit (check_daemon w)"
  unfolding check_daemon_def
  by (cases "docker_info w") (auto simp: no_exit_def snd_seq)

lemma early_check_files: "early_run (check_files w fs)"
  by (induction fs) (auto simp: early_run_def early_event_def is_interrupted_def fst_seq snd_seq)

lemma no_exit_check_files: "no_exit (check_files w fs)"
  by (induction fs) (auto simp: no_exit_def snd_seq)

lemma early_validate_prerequisites: "early_run (validate_prerequisites w)"
  unfolding validate_prerequisites_def
  by (intro early_run_seq early_run_if early_check_docker early_check_daemon early_check_files
      early_run_ret early_run_emit)
    (simp_all add: early_event_def is_interrupted_def)

lemma no_exit_validate_prerequisites: "no_exit (validate_prerequisites w)"
  unfolding validate_prerequisites_def
  by (intro no_exit_seq no_exit_if no_exit_check_docker no_exit_check_daemon no_exit_check_files
      no_exit_ret no_exit_emit)

lemma missing_not_has_fields: "missing_field app = (\<not> has_fields app)"
  by (cases app) (simp_all add: missing_field_def has_fields_def)

lemma list_ex_missing: "list_ex missing_field apps = (\<not> list_all has_fields apps)"
  by (induction apps) (simp_all add: missing_not_has_fields)

lemma validate_apps_Inl: "\<not> list_all has_fields apps \<Longrightarrow> \<exists>m. validate_apps (JArray apps) = Inl m"
  using validate_apps_Inr_iff [of "JArray apps" apps]
  by (cases "validate_apps (JArray apps)") (auto simp: validate_apps_Inr_iff)

lemma has_key_map_of: "has_key d k \<Longrightarrow> \<exists>v. map_of d k = Some v"
  unfolding has_key_def by (cases "map_of d k") (simp_all add: map_of_eq_None_iff)

lemma print_apps_ok:
  "list_all has_fields apps \<Longrightarrow>
     snd (print_apps i apps) = Inr () \<and> list_all early_event (fst (print_apps i apps))
     \<and> \<not> list_ex is_interrupted (fst (print_apps i apps))"
proof (induction apps arbitrary: i)
  case Nil
  then show ?case by simp
next
  case (Cons app apps)
  then obtain d where d: "app = JObject d" "has_key d ''url''" "has_key d ''branch''"
    by (cases app) (auto simp: has_fields_def)
  then obtain u b where "map_of d ''url'' = Some u" "map_of d ''branch'' = Some b"
    using has_key_map_of by blast
  with Cons d show ?case
    by (simp add: fst_seq snd_seq early_event_def is_interrupted_def)
qed

lemma early_load_apps_config: "early_run (load_apps_config w file)"
proof (cases "read_apps w file")
  case (Loaded j)
  show ?thesis
  proof (cases "validate_apps j")
    case (Inl m)
    with Loaded show ?thesis
      by (simp add: load_apps_config_def early_run_def fst_seq snd_seq early_event_def
          is_interrupted_def)
  next
    case (Inr apps)
    then have "list_all has_fields apps" by (simp add: validate_apps_Inr_iff)
    from print_apps_ok [OF this, of 1] Loaded Inr show ?thesis
      by (simp add: load_apps_config_def early_run_def fst_seq snd_seq early_event_def
          is_interrupted_def)
  qed
qed (simp_all add: load_apps_config_def early_run_def fst_seq snd_seq early_event_def
    is_interrupted_def)

lemma load_apps_config_result:
  "snd (load_apps_config w file) =
     (case read_apps w file of
        Loaded j \<Rightarrow> (case validate_apps j of Inl m \<Rightarrow> Inl (SystemExit 1) | Inr apps \<Rightarrow> Inr apps)
      | ReadFailed m \<Rightarrow> Inl (Exception m)
      | ReadInterrupted \<Rightarrow> Inl KeyboardInterrupt
      | _ \<Rightarrow> Inl (SystemExit 1))"
proof (cases "read_apps w file")
  case (Loaded j)
  show ?thesis
  proof (cases "validate_apps j")
    case (Inl m)
    with Loaded show ?thesis by (simp add: load_apps_config_def snd_seq)
  next
    case (Inr apps)
    then have "list_all has_fields apps" by (simp add: validate_apps_Inr_iff)
    from print_apps_ok [OF this, of 1] Loaded Inr show ?thesis
      by (simp add: load_apps_config_def snd_seq)
  qed
qed (simp_all add: load_apps_config_def snd_seq)

lemma load_apps_config_bad:
  assumes "bad_apps_file (read_apps w file)"
  shows "snd (load_apps_config w file) = Inl (SystemExit 1)"
proof (cases "read_apps w file")
  case (Loaded j)
  show ?thesis
  proof (cases j)
    case (JArray apps)
    with assms Loaded have "\<not> list_all has_fields apps"
      by (simp add: bad_apps_file_def list_ex_missing)
    then obtain m where "validate_apps (JArray apps) = Inl m" using validate_apps_Inl by blast
    with Loaded JArray show ?thesis by (simp add: load_apps_config_result)
  qed (simp_all add: Loaded load_apps_config_result validate_apps_def)
qed (use assms in \<open>simp_all add: load_apps_config_result bad_apps_file_def\<close>)

lemma set_item_flags:
  "dry_run (set_item k v c) = dry_run c" "quiet (set_item k v c) = quiet c"
  "interactive (set_item k v c) = interactive c"
  by (simp_all add: set_item_def)

lemma apply_env_flags:
  "snd (apply_env env ms c) = Inr c' \<Longrightarrow>
     dry_run c' = dry_run c \<and> quiet c' = quiet c \<and> interactive c' = interactive c"
proof (induction ms arbitrary: c)
  case Nil
  then show ?case by simp
next
  case (Cons m ms)
  obtain ev k where m: "m = (ev, k)" by (cases m)
  show ?case
  proof (cases "env ev")
    case None
    with Cons m show ?thesis by simp
  next
    case (Some v)
    with Cons.prems m have "snd (apply_env env ms (set_item k v c)) = Inr c'"
      by (simp add: snd_seq)
    from Cons.IH [OF this] show ?thesis by (simp add: set_item_flags)
  qed
qed

lemma interactive_config_flags:
  "snd (interactive_config ins c) = Inr c' \<Longrightarrow> dry_run c' = dry_run c \<and> quiet c' = quiet c"
  unfolding interactive_config_def Let_def
  by (auto simp: snd_seq split: sum.splits prod.splits if_splits)

lemma resolve_config_flags:
  assumes "snd (resolve_config w a) = Inr c"
  shows "dry_run c = dry_run a \<and> quiet c = quiet a"
proof -
  from assms obtain c0 where c0: "snd (load_config w a) = Inr c0"
    and rest: "snd (if interactive c0 then interactive_config (stdin_lines w) c0 else ret c0) = Inr c"
    by (auto simp: resolve_config_def snd_seq split: sum.splits)
  from c0 have "dry_run c0 = dry_run a \<and> quiet c0 = quiet a"
    unfolding load_config_def using apply_env_flags [of "environ w" env_mappings _ c0]
    by (auto simp: args.defs config.defs)
  with rest interactive_config_flags [of "stdin_lines w" c0 c] show ?thesis
    by (auto split: if_splits)
qed

lemma early_run_Inr: "early_run m \<Longrightarrow> snd m = Inr x \<Longrightarrow> \<not> list_ex is_interrupted (fst m)"
  by (auto simp: early_run_def)

lemma early_run_events: "early_run m \<Longrightarrow> list_all early_event (fst m)"
  by (simp add: early_run_def)

lemma early_run_interrupt:
  "early_run m \<Longrightarrow> list_ex is_interrupted (fst m) = (snd m = Inl KeyboardInterrupt)"
  by (simp add: early_run_def)

lemma banner_early:
  "list_all early_event (fst (if \<not> quiet a then emit Banner else ret ()))"
  "\<not> list_ex is_interrupted (fst (if \<not> quiet a then emit Banner else ret ()))"
  "snd (if \<not> quiet a then emit Banner else ret ()) = Inr ()"
  by (simp_all add: early_event_def is_interrupted_def)

lemma build_body_reached:
  assumes "reached_command w a = Some cmd"
  obtains c apps pre where
    "snd (resolve_config w a) = Inr c"
    "snd (load_apps_config w (apps_file c)) = Inr apps"
    "cmd = build_docker_command (c\<lparr>apps_json_base64 := encode_apps apps\<rparr>)"
    "build_body w a = (pre @ fst (build_from_apps w c apps), snd (build_from_apps w c apps))"
    "list_all early_event pre" "\<not> list_ex is_interrupted pre"
proof -
  from assms obtain c apps where c: "snd (resolve_config w a) = Inr c"
    and p: "snd (validate_prerequisites w) = Inr True"
    and l: "snd (load_apps_config w (apps_file c)) = Inr apps"
    and cmd: "cmd = build_docker_command (c\<lparr>apps_json_base64 := encode_apps apps\<rparr>)"
    by (auto simp: reached_command_def split: sum.splits bool.splits)
  let ?pre = "fst (if \<not> quiet a then emit Banner else ret ()) @ fst (resolve_config w a)
     @ fst (validate_prerequisites w) @ fst (load_apps_config w (apps_file c))"
  have body: "build_body w a = (?pre @ fst (build_from_apps w c apps), snd (build_from_apps w c apps))"
    using c p l by (simp add: build_body_def prod_eq_iff fst_seq snd_seq banner_early)
  have ev: "list_all early_event ?pre"
    using early_run_events [OF early_resolve_config, of w a]
      early_run_events [OF early_validate_prerequisites, of w]
      early_run_events [OF early_load_apps_config, of w "apps_file c"]
    by (simp add: banner_early)
  have ni: "\<not> list_ex is_interrupted ?pre"
    using early_run_Inr [OF early_resolve_config c]
      early_run_Inr [OF early_validate_prerequisites p]
      early_run_Inr [OF early_load_apps_config l]
    by (simp add: banner_early)
  from c l cmd body ev ni show thesis by (rule that)
qed

lemma no_exit_cases:
  "no_exit m \<Longrightarrow> snd m = Inl e \<Longrightarrow> e = KeyboardInterrupt \<or> (\<exists>msg. e = Exception msg)"
  by (cases e) (simp_all add: no_exit_def)

lemma build_body_unreached:
  assumes "reached_command w a = None"
  obtains es e where
    "build_body w a = (es, Inl e)" "list_all early_event es"
    "list_ex is_interrupted es = (e = KeyboardInterrupt)"
    "e = SystemExit 1 \<or> e = KeyboardInterrupt \<or> (\<exists>msg. e = Exception msg)"
proof (cases "snd (resolve_config w a)")
  case (Inl e)
  let ?es = "fst (if \<not> quiet a then emit Banner else ret ()) @ fst (resolve_config w a)"
  have "build_body w a = (?es, Inl e)"
    using Inl by (simp add: build_body_def prod_eq_iff fst_seq snd_seq banner_early)
  moreover have "list_all early_event ?es"
    using early_run_events [OF early_resolve_config, of w a] by (simp add: banner_early)
  moreover have "list_ex is_interrupted ?es = (e = KeyboardInterrupt)"
    using early_run_interrupt [OF early_resolve_config, of w a] Inl by (simp add: banner_early)
  moreover have "e = SystemExit 1 \<or> e = KeyboardInterrupt \<or> (\<exists>msg. e = Exception msg)"
    using no_exit_cases [OF no_exit_resolve_config Inl] by blast
  ultimately show thesis by (rule that)
next
  case (Inr c)
  note c = this
  let ?es1 = "fst (if \<not> quiet a then emit Banner else ret ()) @ fst (resolve_config w a)
     @ fst (validate_prerequisites w)"
  have ev1: "list_all early_event ?es1"
    using early_run_events [OF early_resolve_config, of w a]
      early_run_events [OF early_validate_prerequisites, of w] by (simp add: banner_early)
  have ni0: "\<not> list_ex is_interrupted (fst (resolve_config w a))"
    using early_run_Inr [OF early_resolve_config c] .
  show thesis
  proof (cases "snd (validate_prerequisites w)")
    case (Inl e)
    have "build_body w a = (?es1, Inl e)"
      using c Inl by (simp add: build_body_def prod_eq_iff fst_seq snd_seq banner_early)
    moreover have "list_ex is_interrupted ?es1 = (e = KeyboardInterrupt)"
      using early_run_interrupt [OF early_validate_prerequisites, of w] Inl ni0
      by (simp add: banner_early)
    moreover have "e = SystemExit 1 \<or> e = KeyboardInterrupt \<or> (\<exists>msg. e = Exception msg)"
      using no_exit_cases [OF no_exit_validate_prerequisites Inl] by blast
    ultimately show thesis using ev1 by (intro that)
  next
    case (Inr ok)
    note p = this
    have ni1: "\<not> list_ex is_interrupted ?es1"
      using ni0 early_run_Inr [OF early_validate_prerequisites p] by (simp add: banner_early)
    show thesis
    proof (cases ok)
      case False
      have "build_body w a = (?es1, Inl (SystemExit 1))"
        using c p False by (simp add: build_body_def prod_eq_iff fst_seq snd_seq banner_early)
      with ev1 ni1 show thesis by (intro that) auto
    next
      case True
      from assms c p True obtain e where l: "snd (load_apps_config w (apps_file c)) = Inl e"
        by (auto simp: reached_command_def split: sum.splits)
      let ?es2 = "?es1 @ fst (load_apps_config w (apps_file c))"
      have "build_body w a = (?es2, Inl e)"
        using c p True l by (simp add: build_body_def prod_eq_iff fst_seq snd_seq banner_early)
      moreover have "list_all early_event ?es2"
        using ev1 early_run_events [OF early_load_apps_config, of w "apps_file c"] by simp
      moreover have "list_ex is_interrupted ?es2 = (e = KeyboardInterrupt)"
        using ni1 early_run_interrupt [OF early_load_apps_config, of w "apps_file c"] l by simp
      moreover have "e = SystemExit 1 \<or> e = KeyboardInterrupt \<or> (\<exists>msg. e = Exception msg)"
        using l by (auto simp: load_apps_config_result split: read_result.splits sum.splits)
      ultimately show thesis by (rule that)
    qed
  qed
qed

lemma build_of_exit:
  "build_body w a = (es, Inl (SystemExit n)) \<Longrightarrow> build w a = (es @ [CleanupCalled []], n)"
  by (simp add: build_def cleanup_def)

lemma build_of_interrupt:
  "build_body w a = (es, Inl KeyboardInterrupt) \<Longrightarrow>
     build w a = (es @ [Status ''Build interrupted by user'' ''WARNING'', CleanupCalled []], 130)"
  by (simp add: build_def cleanup_def)

lemma build_of_exception:
  "build_body w a = (es, Inl (Exception m)) \<Longrightarrow>
     build w a = (es @ [Status (''Unexpected error: '' @ m) ''ERROR'',
                        LogException ''Unexpected error occurred'', CleanupCalled []], 1)"
  by (simp add: build_def cleanup_def)

lemma early_event_simps:
  "early_event (Popen cmd) = False"
  "early_event (Interrupted s) = (s \<noteq> AtDockerBuild)"
  "early_event (Print t) = (t \<noteq> ''  Status: FAILED'')"
  "early_event (Status m l) =
     (l \<noteq> ''WARNING'' \<and> \<not> starts_with ''   '' m \<and> \<not> starts_with ''Docker build'' m)"
  by (simp_all add: early_event_def)

lemma starts_with_append: "starts_with (p @ q) s \<Longrightarrow> starts_with p s"
  by (induction p s rule: starts_with.induct) auto

lemma early_not_failed_report: "early_event e \<Longrightarrow> \<not> build_failed_report e"
proof (cases e)
  case (Status m l)
  assume "early_event e"
  with Status have "\<not> starts_with ''Docker build'' m" by (simp add: early_event_def)
  with starts_with_append [of "''Docker build''" "'' failed with exit code ''" m]
  show ?thesis using Status by (auto simp: build_failed_report_def)
qed (simp_all add: build_failed_report_def)

lemma early_events_no_report: "list_all early_event es \<Longrightarrow> \<not> list_ex build_failed_report es"
  by (induction es) (auto simp: early_not_failed_report)

lemma interrupted_mem: "Interrupted s \<in> set es \<Longrightarrow> list_ex is_interrupted es"
  by (force simp: list_ex_iff is_interrupted_def)

lemma early_mem: "list_all early_event es \<Longrightarrow> e \<in> set es \<Longrightarrow> early_event e"
  by (simp add: list_all_iff)

lemma execute_build_interrupted:
  assumes "Interrupted s \<in> set (fst (execute_build w c cmd))"
  shows "s = AtDockerBuild \<and> snd (execute_build w c cmd) = Inr False
    \<and> Status ''Build interrupted by user'' ''WARNING'' \<in> set (fst (execute_build w c cmd))
    \<and> \<not> list_ex build_failed_report (fst (execute_build w c cmd))"
proof (cases "dry_run c")
  case True
  with assms show ?thesis by (simp add: execute_build_def fst_seq)
next
  case False
  with assms show ?thesis
    by (cases "docker_build w cmd")
      (auto simp: execute_build_def fst_seq snd_seq build_failed_report_def list_ex_iff
        split: if_splits)
qed

lemma print_config_summary_run:
  "snd (print_config_summary c) = Inr ()"
  "e \<in> set (fst (print_config_summary c)) \<Longrightarrow>
     (\<exists>t. e = Print t \<and> t \<noteq> ''  Status: FAILED'') \<or> e = Status ''Configuration Summary'' ''HEADER''"
  by (auto simp: print_config_summary_def config_line_def)

lemma print_build_summary_failed:
  "print_build_summary w c False =
     ([Status ''Build Failed'' ''ERROR'', Print ''  Status: FAILED'',
       Print (''  Duration: '' @ elapsed w @ '' seconds''),
       Print ''  Check logs: build_custom_image.log''], Inr ())"
  by (simp add: print_build_summary_def emits_def)

subsection \<open>Validation of the apps\<close>

text \<open>
  Claim C9, as the code has it. Validation accepts a loaded value exactly when it is an
  array whose every entry is an object with a \<open>url\<close> key and a \<open>branch\<close> key, and
  then returns that array. Whatever stands under the two keys is not looked at.
\<close>

theorem validate_apps_accepts:
  "(validate_apps apps_config = Inr apps)
     = (apps_config = JArray apps \<and> list_all has_fields apps)"
  by (rule validate_apps_Inr_iff)

text \<open>
  Claim C9 as stated fails: an entry whose \<open>url\<close> is the empty string and whose
  \<open>branch\<close> is a number passes validation.
\<close>

theorem validate_apps_counterexample:
  "validate_apps (JArray [JObject [(''url'', JString []), (''branch'', JInt 15)]])
     = Inr [JObject [(''url'', JString []), (''branch'', JInt 15)]]
   \<and> \<not> nonempty_string_field (JObject [(''url'', JString []), (''branch'', JInt 15)]) ''url''
   \<and> \<not> nonempty_string_field (JObject [(''url'', JString []), (''branch'', JInt 15)]) ''branch''"
  by (simp add: validate_apps_def has_key_def nonempty_string_field_def)

subsection \<open>Resolution of the configuration\<close>

lemma load_config_total: "\<exists>c. snd (load_config w a) = Inr c"
  unfolding load_config_def
proof -
  have "\<exists>c'. snd (apply_env env ms c) = Inr c'" for env ms c
  proof (induction ms arbitrary: c)
    case Nil
    then show ?case by simp
  next
    case (Cons m ms)
    obtain ev k where "m = (ev, k)" by (cases m)
    with Cons show ?case by (cases "env ev") (simp_all add: snd_seq)
  qed
  then show "\<exists>c. snd (apply_env (environ w) env_mappings (args.extend a (config.fields []))) = Inr c"
    by blast
qed



text \<open>
  Claim C4, for an invocation without the interactive flag. When a recognised
  environment variable is set, its value is the value of its key in the resolved
  configuration, whatever the command line gave for that key.
\<close>

theorem env_overrides_flag:
  assumes "\<not> interactive a" and "(ev, key) \<in> set env_mappings" and "environ w ev = Some v"
  shows "\<exists>c. snd (resolve_config w a) = Inr c \<and> get_item key c = v"
proof -
  obtain c where c: "snd (load_config w a) = Inr c" using load_config_total by blast
  then have "interactive c = interactive a"
    unfolding load_config_def using apply_env_flags [of "environ w" env_mappings _ c]
    by (auto simp: args.defs config.defs)
  with assms(1) c have "snd (resolve_config w a) = Inr c"
    by (simp add: resolve_config_def snd_seq)
  moreover from assms(2,3) c have "get_item key c = v" by (rule load_config_env)
  ultimately show ?thesis by blast
qed

theorem env_overrides_flag_witness:
  "\<exists>c. snd (resolve_config tag_env_world tag_flag_args) = Inr c \<and> tag c = ''foo:bar''"
  using env_overrides_flag [of tag_flag_args "''DOCKER_TAG''" "''tag''" tag_env_world "''foo:bar''"]
  by (simp add: tag_flag_args_def default_args_def tag_env_world_def good_world_def
      env_mappings_def get_item_def)

text \<open>
  Claim C4 as stated, for every invocation, fails with the interactive flag: with
  \<open>DOCKER_TAG=foo:bar\<close>, \<open>--tag baz:qux\<close> and four empty answers, the resolved tag is
  the default of the prompt.
\<close>

theorem env_overrides_flag_counterexample:
  "interactive (tag_flag_args\<lparr>interactive := True\<rparr>)
   \<and> tag (tag_flag_args\<lparr>interactive := True\<rparr>) = ''baz:qux''
   \<and> environ (tag_env_world\<lparr>stdin_lines := [Line [], Line [], Line [], Line []]\<rparr>) ''DOCKER_TAG''
       = Some ''foo:bar''
   \<and> map_sum id tag
        (snd (resolve_config (tag_env_world\<lparr>stdin_lines := [Line [], Line [], Line [], Line []]\<rparr>)
           (tag_flag_args\<lparr>interactive := True\<rparr>)))
      = Inr ''frappe_custom:latest''"
  by (simp add: tag_flag_args_def default_args_def tag_env_world_def good_world_def
      resolve_config_def load_config_def env_mappings_def set_item_def interactive_config_def
      snd_seq strip_def or_default_def args.defs config.defs)




subsection \<open>The handlers of \<open>build\<close>\<close>

lemma handler_cases:
  assumes "build_body w a = (es, Inl e)"
    and "e = SystemExit 1 \<or> e = KeyboardInterrupt \<or> (\<exists>msg. e = Exception msg)"
  obtains (exit) "e = SystemExit 1" "build w a = (es @ [CleanupCalled []], 1)"
  | (interrupt) "e = KeyboardInterrupt"
      "build w a = (es @ [Status ''Build interrupted by user'' ''WARNING'', CleanupCalled []], 130)"
  | (error) msg where "e = Exception msg"
      "build w a = (es @ [Status (''Unexpected error: '' @ msg) ''ERROR'',
                          LogException ''Unexpected error occurred'', CleanupCalled []], 1)"
proof (cases e)
  case (SystemExit n)
  with assms show thesis using build_of_exit [of w a es 1] by (auto intro: exit)
next
  case KeyboardInterrupt
  with assms show thesis using build_of_interrupt [of w a es] by (auto intro: interrupt)
next
  case (Exception msg)
  with assms show thesis using build_of_exception [of w a es msg] by (auto intro: error)
qed

lemma build_events: "set (fst (build_body w a)) \<subseteq> set (fst (build w a))"
  by (auto simp: build_def split: prod.splits sum.splits exc.splits)

text \<open>Every run ends with the cleanup, whatever its exit status.\<close>

lemma build_cleanup: "CleanupCalled [] \<in> set (fst (build w a))"
  by (auto simp: build_def cleanup_def split: prod.splits sum.splits exc.splits)

lemma load_config_interactive:
  "snd (load_config w a) = Inr c \<Longrightarrow> interactive c = interactive a"
  unfolding load_config_def using apply_env_flags [of "environ w" env_mappings _ c]
  by (auto simp: args.defs config.defs)

lemma resolve_config_plain:
  assumes "\<not> interactive a"
  shows "snd (resolve_config w a) = snd (load_config w a)"
proof -
  obtain c where c: "snd (load_config w a) = Inr c" using load_config_total by blast
  with assms load_config_interactive [OF c] show ?thesis
    by (simp add: resolve_config_def snd_seq)
qed

lemma resolve_reached:
  assumes "reached_command w a = Some cmd"
  obtains c where "snd (resolve_config w a) = Inr c"
  using assms by (auto simp: reached_command_def split: sum.splits)

lemma reached_None_bad_apps:
  assumes "snd (resolve_config w a) = Inr c" and "bad_apps_file (read_apps w (apps_file c))"
  shows "reached_command w a = None"
  using assms load_apps_config_bad [OF assms(2)]
  by (auto simp: reached_command_def split: sum.splits bool.splits)

subsection \<open>A rejected apps file\<close>

text \<open>
  Claim C5. When the configuration is resolved and the apps file it names is missing,
  is not JSON, holds a value that is not an array, or holds an array with an element
  that lacks \<open>url\<close> or \<open>branch\<close>, the process ends with an exit status other than 0
  and the build subprocess is never spawned.
\<close>

theorem apps_file_rejected:
  assumes "snd (resolve_config w a) = Inr c" and "bad_apps_file (read_apps w (apps_file c))"
  shows "snd (build w a) \<noteq> 0 \<and> (\<forall>cmd. Popen cmd \<notin> set (fst (build w a)))"
proof -
  from assms have "reached_command w a = None" by (rule reached_None_bad_apps)
  then obtain es e where body: "build_body w a = (es, Inl e)"
    and early: "list_all early_event es"
    and e: "e = SystemExit 1 \<or> e = KeyboardInterrupt \<or> (\<exists>msg. e = Exception msg)"
    by (rule build_body_unreached)
  have no_popen: "Popen cmd \<notin> set es" for cmd
    using early_mem [OF early, of "Popen cmd"] by (auto simp: early_event_simps)
  from body e show ?thesis
    by (cases rule: handler_cases) (simp_all add: no_popen)
qed

theorem apps_file_rejected_witness:
  "snd (build object_apps_world default_args) \<noteq> 0
   \<and> (\<forall>cmd. Popen cmd \<notin> set (fst (build object_apps_world default_args)))"
proof -
  have "\<not> interactive default_args" by (simp add: default_args_def)
  then obtain c where c: "snd (resolve_config object_apps_world default_args) = Inr c"
    using load_config_total [of object_apps_world default_args] resolve_config_plain by metis
  have "bad_apps_file (read_apps object_apps_world (apps_file c))"
    by (simp add: object_apps_world_def bad_apps_file_def)
  with c show ?thesis by (rule apps_file_rejected)
qed

subsection \<open>Execution and summaries\<close>

lemma execute_build_dry:
  "dry_run c \<Longrightarrow> execute_build w c cmd =
     ([Status ''DRY RUN - Would execute:'' ''WARNING'', Status (''   '' @ join '' '' cmd) ''INFO''],
      Inr True)"
  by (simp add: execute_build_def prod_eq_iff fst_seq snd_seq)

lemma execute_build_failed:
  "\<not> dry_run c \<Longrightarrow> docker_build w cmd = BuildExited ls rc \<Longrightarrow> rc \<noteq> 0 \<Longrightarrow>
     execute_build w c cmd =
       ([Status ''Starting Docker build...'' ''INFO'', Status (''Command: '' @ join '' '' cmd) ''INFO'',
         Popen cmd] @ map BuildLine ls
        @ [Status (''Docker build failed with exit code '' @ show_int rc) ''ERROR''], Inr False)"
  by (simp add: execute_build_def prod_eq_iff fst_seq snd_seq)

lemma execute_build_total: "\<exists>ok. snd (execute_build w c cmd) = Inr ok"
  by (cases "docker_build w cmd") (auto simp: execute_build_def snd_seq)

lemma print_config_summary_events:
  assumes "e \<in> set (fst (print_config_summary c))"
  shows "\<not> is_interrupted e" "\<not> build_failed_report e" "e \<noteq> Popen cmd"
    "e \<noteq> Print ''  Status: FAILED''"
  using print_config_summary_run(2) [OF assms]
  by (auto simp: is_interrupted_def build_failed_report_def)

lemma print_build_summary_events:
  assumes "e \<in> set (fst (print_build_summary w c ok))"
  shows "\<not> is_interrupted e" "\<not> build_failed_report e" "e \<noteq> Popen cmd"
  using assms
  by (auto simp: print_build_summary_def is_interrupted_def build_failed_report_def fst_seq
      split: if_splits sum.splits)

lemma build_from_apps_parts:
  assumes "c' = c\<lparr>apps_json_base64 := encode_apps apps\<rparr>"
    and "cmd = build_docker_command c'"
    and "snd (execute_build w c' cmd) = Inr ok"
    and "cs = (if \<not> quiet c then print_config_summary c' else ret ())"
    and "sm = (if \<not> quiet c then print_build_summary w c' ok else ret ())"
  shows "fst (build_from_apps w c apps) = fst cs @ fst (execute_build w c' cmd) @ fst sm"
    and "snd (build_from_apps w c apps) =
      (case snd sm of Inl e \<Rightarrow> Inl e | Inr u \<Rightarrow> Inl (SystemExit (if ok then 0 else 1)))"
  using assms
  by (auto simp: build_from_apps_def Let_def fst_seq snd_seq print_config_summary_run(1)
      split: sum.splits)

lemma split_on_length: "length (split_on ch s) = Suc (length (filter (\<lambda>x. x = ch) s))"
  by (induction s) (auto split: list.splits)

lemma index_split_tag:
  "index (split_on CHR '':'' t) 0 = Inr (hd (split_on CHR '':'' t))"
  "(\<exists>x. index (split_on CHR '':'' t) 1 = Inr x) = (CHR '':'' \<in> set t)"
  "CHR '':'' \<notin> set t \<Longrightarrow> index (split_on CHR '':'' t) 1 = Inl (Exception ''list index out of range'')"
proof -
  have len: "length (split_on CHR '':'' t) = Suc (length (filter (\<lambda>x. x = CHR '':'') t))"
    by (rule split_on_length)
  then show "index (split_on CHR '':'' t) 0 = Inr (hd (split_on CHR '':'' t))"
    by (cases "split_on CHR '':'' t") (simp_all add: index_def)
  have "(1 < length (split_on CHR '':'' t)) = (CHR '':'' \<in> set t)"
    unfolding len by (auto simp: filter_empty_conv)
  then show "(\<exists>x. index (split_on CHR '':'' t) 1 = Inr x) = (CHR '':'' \<in> set t)"
    and "CHR '':'' \<notin> set t \<Longrightarrow> index (split_on CHR '':'' t) 1 = Inl (Exception ''list index out of range'')"
    by (auto simp: index_def)
qed

lemma print_build_summary_success:
  "snd (print_build_summary w c True) =
     (if CHR '':'' \<in> set (tag c) then Inr () else Inl (Exception ''list index out of range''))"
proof (cases "CHR '':'' \<in> set (tag c)")
  case True
  then obtain x where "index (split_on CHR '':'' (tag c)) 1 = Inr x"
    using index_split_tag(2) by blast
  with True show ?thesis
    by (simp add: print_build_summary_def snd_seq index_split_tag(1))
next
  case False
  with index_split_tag(3) [OF False] show ?thesis
    by (simp add: print_build_summary_def snd_seq index_split_tag(1))
qed

subsection \<open>Interrupts\<close>

text \<open>
  Claim C6, as the code has it. A run in which a blocking call raised
  \<open>KeyboardInterrupt\<close> reports "Build interrupted by user", reports no failed build,
  and runs the cleanup. Its exit status is 130 when the interrupt came at a prompt,
  during \<open>docker --version\<close>, during \<open>docker info\<close> or while the apps file was read;
  it is 1 when the interrupt came while the build subprocess was running, which
  \<open>_execute_build\<close> catches itself and turns into a failed build.
\<close>

theorem interrupt_exit_status:
  assumes "Interrupted s \<in> set (fst (build w a))"
  shows "snd (build w a) = (if s = AtDockerBuild then 1 else 130)
    \<and> Status ''Build interrupted by user'' ''WARNING'' \<in> set (fst (build w a))
    \<and> \<not> list_ex build_failed_report (fst (build w a))
    \<and> CleanupCalled [] \<in> set (fst (build w a))"
proof (cases "reached_command w a")
  case None
  then obtain es e where body: "build_body w a = (es, Inl e)"
    and early: "list_all early_event es"
    and int: "list_ex is_interrupted es = (e = KeyboardInterrupt)"
    and e: "e = SystemExit 1 \<or> e = KeyboardInterrupt \<or> (\<exists>msg. e = Exception msg)"
    by (rule build_body_unreached)
  note no_report = early_events_no_report [OF early]
  from body e show ?thesis
  proof (cases rule: handler_cases)
    case exit
    with assms int have False by (auto dest: interrupted_mem)
    then show ?thesis ..
  next
    case interrupt
    with assms have "Interrupted s \<in> set es" by simp
    with early have "s \<noteq> AtDockerBuild" using early_mem early_event_simps(2) by blast
    with interrupt no_report show ?thesis by (simp add: build_failed_report_def)
  next
    case (error msg)
    with assms int have False by (auto dest: interrupted_mem)
    then show ?thesis ..
  qed
next
  case (Some cmd)
  then obtain c apps pre where
    cmd: "cmd = build_docker_command (c\<lparr>apps_json_base64 := encode_apps apps\<rparr>)"
    and body: "build_body w a = (pre @ fst (build_from_apps w c apps), snd (build_from_apps w c apps))"
    and early: "list_all early_event pre" and ni: "\<not> list_ex is_interrupted pre"
    by (rule build_body_reached)
  define c' where "c' = c\<lparr>apps_json_base64 := encode_apps apps\<rparr>"
  obtain ok where ok: "snd (execute_build w c' cmd) = Inr ok"
    using execute_build_total by blast
  define cs where "cs = (if \<not> quiet c then print_config_summary c' else ret ())"
  define sm where "sm = (if \<not> quiet c then print_build_summary w c' ok else ret ())"
  note parts = build_from_apps_parts [OF c'_def cmd [folded c'_def] ok cs_def sm_def]
  have cs_ev: "\<not> is_interrupted e \<and> \<not> build_failed_report e" if "e \<in> set (fst cs)" for e
    using that print_config_summary_events [of e c'] by (auto simp: cs_def split: if_splits)
  have sm_ev: "\<not> is_interrupted e \<and> \<not> build_failed_report e" if "e \<in> set (fst sm)" for e
    using that print_build_summary_events [of e w c' ok] by (auto simp: sm_def split: if_splits)
  have handler: "\<not> is_interrupted e" if "e \<in> set (fst (build w a))" "e \<notin> set (fst (build_body w a))" for e
    using that by (auto simp: build_def cleanup_def is_interrupted_def split: prod.splits sum.splits exc.splits)
  have "Interrupted s \<in> set (fst (build_body w a))"
    using handler [of "Interrupted s"] assms by (auto simp: is_interrupted_def)
  moreover have "Interrupted s \<notin> set pre" using ni interrupted_mem by blast
  moreover have "Interrupted s \<notin> set (fst cs)"
    using cs_ev [of "Interrupted s"] by (auto simp: is_interrupted_def)
  moreover have "Interrupted s \<notin> set (fst sm)"
    using sm_ev [of "Interrupted s"] by (auto simp: is_interrupted_def)
  ultimately have in_ex: "Interrupted s \<in> set (fst (execute_build w c' cmd))"
    using body parts(1) by simp
  from execute_build_interrupted [OF in_ex] ok
  have s: "s = AtDockerBuild" and okF: "ok = False"
    and msg: "Status ''Build interrupted by user'' ''WARNING'' \<in> set (fst (execute_build w c' cmd))"
    and nr: "\<not> list_ex build_failed_report (fst (execute_build w c' cmd))"
    by simp_all
  have "snd sm = Inr ()"
    by (simp add: sm_def okF print_build_summary_failed)
  with parts(2) okF have "snd (build_from_apps w c apps) = Inl (SystemExit 1)" by simp
  with body have b: "build w a = (pre @ fst (build_from_apps w c apps) @ [CleanupCalled []], 1)"
    using build_of_exit [of w a "pre @ fst (build_from_apps w c apps)" 1] by simp
  have "\<not> list_ex build_failed_report (pre @ fst (build_from_apps w c apps) @ [CleanupCalled []])"
    using early_events_no_report [OF early] nr cs_ev sm_ev parts(1)
    by (auto simp: list_ex_iff build_failed_report_def)
  with b s msg parts(1) show ?thesis by simp
qed

theorem interrupt_exit_status_witness:
  "snd (build interrupted_info_world default_args) = 130
   \<and> Status ''Build interrupted by user'' ''WARNING'' \<in> set (fst (build interrupted_info_world default_args))
   \<and> \<not> list_ex build_failed_report (fst (build interrupted_info_world default_args))
   \<and> CleanupCalled [] \<in> set (fst (build interrupted_info_world default_args))"
proof -
  have "Interrupted AtDockerInfo \<in> set (fst (build interrupted_info_world default_args))"
    by code_simp
  from interrupt_exit_status [OF this] show ?thesis by simp
qed

text \<open>
  Claim C6 as stated fails: a run interrupted while the build subprocess executes
  exits with status 1, not 130.
\<close>

theorem interrupt_exit_status_counterexample:
  "Interrupted AtDockerBuild \<in> set (fst (build interrupted_build_world default_args))
   \<and> snd (build interrupted_build_world default_args) = 1"
  by code_simp

subsection \<open>A failed build\<close>

text \<open>
  Claim C8, as the code has it. When a run reaches the execution without the dry-run
  flag and the build subprocess exits with a code other than 0, the process exits
  with status 1, the cleanup runs, and the failure is reported with the exit code of
  the build. The summary with the status FAILED is printed exactly when the quiet flag
  is not set.
\<close>

theorem build_failure_exit:
  assumes "reached_command w a = Some cmd" and "\<not> dry_run a"
    and "docker_build w cmd = BuildExited ls rc" and "rc \<noteq> 0"
  shows "snd (build w a) = 1
    \<and> CleanupCalled [] \<in> set (fst (build w a))
    \<and> Status (''Docker build failed with exit code '' @ show_int rc) ''ERROR'' \<in> set (fst (build w a))
    \<and> (Print ''  Status: FAILED'' \<in> set (fst (build w a))) = (\<not> quiet a)"
proof -
  from assms(1) obtain c apps pre where
    c: "snd (resolve_config w a) = Inr c"
    and cmd: "cmd = build_docker_command (c\<lparr>apps_json_base64 := encode_apps apps\<rparr>)"
    and body: "build_body w a = (pre @ fst (build_from_apps w c apps), snd (build_from_apps w c apps))"
    and early: "list_all early_event pre"
    by (rule build_body_reached)
  from resolve_config_flags [OF c] assms(2) have flags: "\<not> dry_run c" "quiet c = quiet a" by simp_all
  define c' where "c' = c\<lparr>apps_json_base64 := encode_apps apps\<rparr>"
  have dry: "\<not> dry_run c'" using flags by (simp add: c'_def)
  note ex = execute_build_failed [OF dry assms(3,4)]
  then have ok: "snd (execute_build w c' cmd) = Inr False" by simp
  define cs where "cs = (if \<not> quiet c then print_config_summary c' else ret ())"
  define sm where "sm = (if \<not> quiet c then print_build_summary w c' False else ret ())"
  note parts = build_from_apps_parts [OF c'_def cmd [folded c'_def] ok cs_def sm_def]
  have sm: "sm = (if \<not> quiet c then print_build_summary w c' False else ret ())" by (rule sm_def)
  have "snd sm = Inr ()" by (simp add: sm_def print_build_summary_failed)
  with parts(2) have "snd (build_from_apps w c apps) = Inl (SystemExit 1)" by simp
  with body have b: "build w a = (pre @ fst (build_from_apps w c apps) @ [CleanupCalled []], 1)"
    using build_of_exit [of w a "pre @ fst (build_from_apps w c apps)" 1] by simp
  have p1: "Print ''  Status: FAILED'' \<notin> set pre"
    using early_mem [OF early, of "Print ''  Status: FAILED''"] by (auto simp: early_event_simps)
  have p2: "Print ''  Status: FAILED'' \<notin> set (fst cs)"
    using print_config_summary_events(4) [of "Print ''  Status: FAILED''" c']
    by (auto simp: cs_def split: if_splits)
  have p3: "Print ''  Status: FAILED'' \<notin> set (fst (execute_build w c' cmd))"
    by (auto simp: ex)
  have p4: "(Print ''  Status: FAILED'' \<in> set (fst sm)) = (\<not> quiet c)"
    by (simp add: sm_def print_build_summary_failed)
  have rep: "Status (''Docker build failed with exit code '' @ show_int rc) ''ERROR''
      \<in> set (fst (execute_build w c' cmd))"
    by (simp add: ex)
  from b parts(1) p1 p2 p3 p4 rep flags show ?thesis by simp
qed

theorem build_failure_exit_witness:
  "snd (build failing_build_world default_args) = 1
    \<and> CleanupCalled [] \<in> set (fst (build failing_build_world default_args))
    \<and> Status ''Docker build failed with exit code 3'' ''ERROR''
         \<in> set (fst (build failing_build_world default_args))
    \<and> Print ''  Status: FAILED'' \<in> set (fst (build failing_build_world default_args))"
proof -
  have "reached_command failing_build_world default_args \<noteq> None"
    by code_simp
  then obtain cmd where reached: "reached_command failing_build_world default_args = Some cmd"
    by blast
  have flag: "\<not> dry_run default_args" by (simp add: default_args_def)
  have exited: "docker_build failing_build_world cmd = BuildExited [''Step 1/9''] 3"
    by (simp add: failing_build_world_def)
  have "show_int 3 = ''3''" by code_simp
  with build_failure_exit [OF reached flag exited] show ?thesis
    by (simp add: default_args_def)
qed

text \<open>
  Claim C8 as stated, for every run, fails with the quiet flag: the build exits with
  code 3, the process with 1, and no summary is printed.
\<close>

theorem build_failure_quiet_counterexample:
  "snd (build failing_build_world (default_args\<lparr>quiet := True\<rparr>)) = 1
   \<and> Print ''  Status: FAILED'' \<notin> set (fst (build failing_build_world (default_args\<lparr>quiet := True\<rparr>)))"
  by code_simp

subsection \<open>Dry runs\<close>

lemma dry_run_run:
  assumes "reached_command w a = Some cmd" and "dry_run a" and "snd (resolve_config w a) = Inr c"
  shows "(\<forall>cmd'. Popen cmd' \<notin> set (fst (build w a)))
    \<and> Status ''DRY RUN - Would execute:'' ''WARNING'' \<in> set (fst (build w a))
    \<and> Status (''   '' @ join '' '' cmd) ''INFO'' \<in> set (fst (build w a))
    \<and> snd (execute_build w c cmd) = Inr True
    \<and> snd (build w a) = (if quiet a \<or> CHR '':'' \<in> set (tag c) then 0 else 1)"
proof -
  from assms(1) obtain c0 apps pre where
    c0: "snd (resolve_config w a) = Inr c0"
    and cmd: "cmd = build_docker_command (c0\<lparr>apps_json_base64 := encode_apps apps\<rparr>)"
    and body: "build_body w a = (pre @ fst (build_from_apps w c0 apps), snd (build_from_apps w c0 apps))"
    and early: "list_all early_event pre"
    by (rule build_body_reached)
  from c0 assms(3) have same: "c0 = c" by simp
  from resolve_config_flags [OF assms(3)] assms(2) have flags: "dry_run c" "quiet c = quiet a"
    by simp_all
  define c' where "c' = c\<lparr>apps_json_base64 := encode_apps apps\<rparr>"
  have dry: "dry_run c'" using flags by (simp add: c'_def)
  note ex = execute_build_dry [OF dry, of w cmd]
  then have ok: "snd (execute_build w c' cmd) = Inr True" by simp
  define cs where "cs = (if \<not> quiet c then print_config_summary c' else ret ())"
  define sm where "sm = (if \<not> quiet c then print_build_summary w c' True else ret ())"
  note parts = build_from_apps_parts [OF c'_def cmd [unfolded same, folded c'_def] ok cs_def sm_def]
  have tag: "tag c' = tag c" by (simp add: c'_def)
  have sm_result: "snd sm = (if quiet c \<or> CHR '':'' \<in> set (tag c) then Inr ()
      else Inl (Exception ''list index out of range''))"
    by (simp add: sm_def print_build_summary_success tag)
  have no_popen: "Popen cmd' \<notin> set (pre @ fst (build_from_apps w c apps))" for cmd'
    using early_mem [OF early, of "Popen cmd'"] print_config_summary_events(3) [of "Popen cmd'" c' cmd']
      print_build_summary_events(3) [of "Popen cmd'" w c' True cmd']
    by (auto simp: parts(1) ex cs_def sm_def early_event_simps split: if_splits)
  have printed: "Status ''DRY RUN - Would execute:'' ''WARNING'' \<in> set (fst (build_from_apps w c apps))"
    "Status (''   '' @ join '' '' cmd) ''INFO'' \<in> set (fst (build_from_apps w c apps))"
    by (simp_all add: parts(1) ex)
  have exec: "snd (execute_build w c cmd) = Inr True"
    using flags by (simp add: execute_build_dry)
  show ?thesis
  proof (cases "quiet c \<or> CHR '':'' \<in> set (tag c)")
    case True
    with sm_result parts(2) have "snd (build_from_apps w c apps) = Inl (SystemExit 0)" by simp
    with body same have "build w a = (pre @ fst (build_from_apps w c apps) @ [CleanupCalled []], 0)"
      using build_of_exit [of w a "pre @ fst (build_from_apps w c apps)" 0] by simp
    with True no_popen printed exec flags show ?thesis by auto
  next
    case False
    with sm_result parts(2)
    have "snd (build_from_apps w c apps) = Inl (Exception ''list index out of range'')" by simp
    with body same have "build w a =
        (pre @ fst (build_from_apps w c apps)
         @ [Status (''Unexpected error: '' @ ''list index out of range'') ''ERROR'',
            LogException ''Unexpected error occurred'', CleanupCalled []], 1)"
      using build_of_exception [of w a "pre @ fst (build_from_apps w c apps)" "''list index out of range''"]
      by simp
    with False no_popen printed exec flags show ?thesis by auto
  qed
qed

text \<open>
  Claim C7 at a failing input: a dry run with \<open>--tag myimage\<close> on a machine where every
  check passes. The run reaches the execution and prints the dry-run report; the
  success summary then reads \<open>tag.split(':')[1]\<close> of a tag without a colon, the
  \<open>IndexError\<close> reaches the handler for unexpected errors, and the process exits with
  status 1 where the claim says 0.
\<close>

theorem dry_run_untagged_exit:
  "reached_command good_world (default_args\<lparr>dry_run := True, tag := ''myimage''\<rparr>) \<noteq> None
   \<and> Status ''DRY RUN - Would execute:'' ''WARNING''
        \<in> set (fst (build good_world (default_args\<lparr>dry_run := True, tag := ''myimage''\<rparr>)))
   \<and> Status ''Unexpected error: list index out of range'' ''ERROR''
        \<in> set (fst (build good_world (default_args\<lparr>dry_run := True, tag := ''myimage''\<rparr>)))
   \<and> snd (build good_world (default_args\<lparr>dry_run := True, tag := ''myimage''\<rparr>)) = 1"
  by code_simp

text \<open>
  What holds of every dry run that reaches the execution: nothing is spawned, the
  dry-run report and the command are printed, the executor returns success, and the
  exit status is 0 when the quiet flag is set or the tag contains a colon, 1 otherwise.
\<close>

theorem dry_run_outcome:
  assumes "reached_command w a = Some cmd" and "dry_run a" and "snd (resolve_config w a) = Inr c"
  shows "(\<forall>cmd'. Popen cmd' \<notin> set (fst (build w a)))
    \<and> Status ''DRY RUN - Would execute:'' ''WARNING'' \<in> set (fst (build w a))
    \<and> Status (''   '' @ join '' '' cmd) ''INFO'' \<in> set (fst (build w a))
    \<and> snd (execute_build w c cmd) = Inr True
    \<and> snd (build w a) = (if quiet a \<or> CHR '':'' \<in> set (tag c) then 0 else 1)"
  using assms by (rule dry_run_run)

theorem dry_run_outcome_witness:
  "(\<forall>cmd'. Popen cmd' \<notin> set (fst (build good_world (default_args\<lparr>dry_run := True\<rparr>))))
   \<and> Status ''DRY RUN - Would execute:'' ''WARNING''
        \<in> set (fst (build good_world (default_args\<lparr>dry_run := True\<rparr>)))
   \<and> snd (build good_world (default_args\<lparr>dry_run := True\<rparr>)) = 0"
proof -
  let ?a = "default_args\<lparr>dry_run := True\<rparr>"
  have "reached_command good_world ?a \<noteq> None" by code_simp
  then obtain cmd where reached: "reached_command good_world ?a = Some cmd" by blast
  then obtain c where c: "snd (resolve_config good_world ?a) = Inr c" by (rule resolve_reached)
  have "map_sum id tag (snd (resolve_config good_world ?a)) = Inr ''frappe_custom:latest''"
    by code_simp
  with c have "tag c = ''frappe_custom:latest''" by simp
  with dry_run_outcome [OF reached _ c] show ?thesis by simp
qed

lemma prerequisites_events:
  "Run [''docker'', ''--version''] \<in> set (fst (validate_prerequisites w))"
  "proc_ok (docker_version w) \<Longrightarrow> Run [''docker'', ''info''] \<in> set (fst (validate_prerequisites w))"
  "proc_ok (docker_version w) \<Longrightarrow> proc_ok (docker_info w) \<Longrightarrow>
     PathExists ''images/layered/Containerfile'' \<in> set (fst (validate_prerequisites w))"
  "proc_ok (docker_version w) \<Longrightarrow> proc_ok (docker_info w) \<Longrightarrow>
     path_exists w ''images/layered/Containerfile'' \<Longrightarrow>
     PathExists ''images/custom/Containerfile'' \<in> set (fst (validate_prerequisites w))"
  by (cases "docker_version w"; cases "docker_info w";
      simp add: validate_prerequisites_def check_docker_def check_daemon_def required_files_def
        proc_ok_def fst_seq snd_seq)+

lemma prerequisites_result:
  "(snd (validate_prerequisites w) = Inr True) = prerequisites_met w"
  by (cases "docker_version w"; cases "docker_info w";
      simp add: validate_prerequisites_def check_docker_def check_daemon_def required_files_def
        prerequisites_met_def proc_ok_def fst_seq snd_seq)

lemma load_apps_config_valid:
  "(\<exists>apps. snd (load_apps_config w file) = Inr apps) = apps_file_valid w file"
proof (cases "read_apps w file")
  case (Loaded j)
  show ?thesis
  proof (cases j)
    case (JArray apps)
    show ?thesis
    proof (cases "validate_apps (JArray apps)")
      case (Inl m)
      with validate_apps_Inr_iff [of "JArray apps" apps] Loaded JArray show ?thesis
        by (simp add: load_apps_config_result apps_file_valid_def)
    next
      case (Inr xs)
      with validate_apps_Inr_iff [of "JArray apps" xs] Loaded JArray show ?thesis
        by (simp add: load_apps_config_result apps_file_valid_def)
    qed
  qed (simp_all add: Loaded load_apps_config_result apps_file_valid_def validate_apps_def)
qed (simp_all add: load_apps_config_result apps_file_valid_def)

lemma load_apps_config_opens: "OpenFile file \<in> set (fst (load_apps_config w file))"
  by (simp add: load_apps_config_def fst_seq)

lemma build_runs_prerequisites:
  assumes "snd (resolve_config w a) = Inr c"
  shows "set (fst (validate_prerequisites w)) \<subseteq> set (fst (build w a))"
    and "snd (validate_prerequisites w) = Inr True \<Longrightarrow>
      set (fst (load_apps_config w (apps_file c))) \<subseteq> set (fst (build w a))"
proof -
  have "set (fst (validate_prerequisites w)) \<subseteq> set (fst (build_body w a))"
    using assms by (auto simp: build_body_def fst_seq)
  with build_events show "set (fst (validate_prerequisites w)) \<subseteq> set (fst (build w a))"
    by blast
  assume "snd (validate_prerequisites w) = Inr True"
  with assms have "set (fst (load_apps_config w (apps_file c))) \<subseteq> set (fst (build_body w a))"
    by (auto simp: build_body_def fst_seq)
  with build_events show "set (fst (load_apps_config w (apps_file c))) \<subseteq> set (fst (build w a))"
    by blast
qed

text \<open>
  Claim C10. With the dry-run flag set and the configuration resolved, the run still
  calls \<open>docker --version\<close>, then \<open>docker info\<close> when the first call succeeded, then
  looks for the two Containerfiles in turn, then opens the apps file when all
  prerequisites hold. When a prerequisite fails or the apps file is not valid, a run
  that is not interrupted exits with status 1 and prints neither the dry-run report
  nor the command.
\<close>

theorem dry_run_keeps_checks:
  assumes "dry_run a" and "snd (resolve_config w a) = Inr c"
  shows "Run [''docker'', ''--version''] \<in> set (fst (build w a))
    \<and> (proc_ok (docker_version w) \<longrightarrow> Run [''docker'', ''info''] \<in> set (fst (build w a)))
    \<and> (proc_ok (docker_version w) \<and> proc_ok (docker_info w) \<longrightarrow>
         PathExists ''images/layered/Containerfile'' \<in> set (fst (build w a)))
    \<and> (proc_ok (docker_version w) \<and> proc_ok (docker_info w)
         \<and> path_exists w ''images/layered/Containerfile'' \<longrightarrow>
         PathExists ''images/custom/Containerfile'' \<in> set (fst (build w a)))
    \<and> (prerequisites_met w \<longrightarrow> OpenFile (apps_file c) \<in> set (fst (build w a)))
    \<and> (\<not> (prerequisites_met w \<and> apps_file_valid w (apps_file c))
         \<and> \<not> list_ex is_interrupted (fst (build w a)) \<longrightarrow>
         snd (build w a) = 1
         \<and> Status ''DRY RUN - Would execute:'' ''WARNING'' \<notin> set (fst (build w a))
         \<and> (\<forall>cmd. Status (''   '' @ join '' '' cmd) ''INFO'' \<notin> set (fst (build w a))))"
proof -
  note sub = build_runs_prerequisites [OF assms(2)]
  have checks: "Run [''docker'', ''--version''] \<in> set (fst (build w a))"
    "proc_ok (docker_version w) \<Longrightarrow> Run [''docker'', ''info''] \<in> set (fst (build w a))"
    "proc_ok (docker_version w) \<Longrightarrow> proc_ok (docker_info w) \<Longrightarrow>
       PathExists ''images/layered/Containerfile'' \<in> set (fst (build w a))"
    "proc_ok (docker_version w) \<Longrightarrow> proc_ok (docker_info w) \<Longrightarrow>
       path_exists w ''images/layered/Containerfile'' \<Longrightarrow>
       PathExists ''images/custom/Containerfile'' \<in> set (fst (build w a))"
    using prerequisites_events [of w] sub(1) by blast+
  have opened: "OpenFile (apps_file c) \<in> set (fst (build w a))" if "prerequisites_met w"
    using that sub(2) load_apps_config_opens [of "apps_file c" w] prerequisites_result [of w]
    by blast
  have failed: "snd (build w a) = 1
      \<and> Status ''DRY RUN - Would execute:'' ''WARNING'' \<notin> set (fst (build w a))
      \<and> (\<forall>cmd. Status (''   '' @ join '' '' cmd) ''INFO'' \<notin> set (fst (build w a)))"
    if fail: "\<not> (prerequisites_met w \<and> apps_file_valid w (apps_file c))"
      and quiet_run: "\<not> list_ex is_interrupted (fst (build w a))"
  proof -
    from fail assms(2) have "reached_command w a = None"
      using prerequisites_result [of w] load_apps_config_valid [of w "apps_file c"]
      by (auto simp: reached_command_def split: sum.splits bool.splits)
    then obtain es e where body: "build_body w a = (es, Inl e)"
      and early: "list_all early_event es"
      and int: "list_ex is_interrupted es = (e = KeyboardInterrupt)"
      and e: "e = SystemExit 1 \<or> e = KeyboardInterrupt \<or> (\<exists>msg. e = Exception msg)"
      by (rule build_body_unreached)
    have no_dry: "Status ''DRY RUN - Would execute:'' ''WARNING'' \<notin> set es"
      using early_mem [OF early, of "Status ''DRY RUN - Would execute:'' ''WARNING''"]
      by (auto simp: early_event_simps)
    have no_cmd: "Status (''   '' @ join '' '' cmd) ''INFO'' \<notin> set es" for cmd
      using early_mem [OF early, of "Status (''   '' @ join '' '' cmd) ''INFO''"]
      by (auto simp: early_event_simps)
    from body e show ?thesis
    proof (cases rule: handler_cases)
      case exit
      with no_dry no_cmd show ?thesis by simp
    next
      case interrupt
      with int have "list_ex is_interrupted es" by simp
      with interrupt quiet_run have False by simp
      then show ?thesis ..
    next
      case (error msg)
      with no_dry no_cmd show ?thesis by simp
    qed
  qed
  from checks opened failed show ?thesis by blast
qed

theorem dry_run_keeps_checks_witness:
  "Run [''docker'', ''--version''] \<in> set (fst (build object_apps_world (default_args\<lparr>dry_run := True\<rparr>)))
   \<and> Run [''docker'', ''info''] \<in> set (fst (build object_apps_world (default_args\<lparr>dry_run := True\<rparr>)))
   \<and> PathExists ''images/custom/Containerfile''
        \<in> set (fst (build object_apps_world (default_args\<lparr>dry_run := True\<rparr>)))
   \<and> OpenFile ''apps.json'' \<in> set (fst (build object_apps_world (default_args\<lparr>dry_run := True\<rparr>)))
   \<and> snd (build object_apps_world (default_args\<lparr>dry_run := True\<rparr>)) = 1
   \<and> Status ''DRY RUN - Would execute:'' ''WARNING''
        \<notin> set (fst (build object_apps_world (default_args\<lparr>dry_run := True\<rparr>)))"
proof -
  let ?a = "default_args\<lparr>dry_run := True\<rparr>"
  have flag: "dry_run ?a" by simp
  have "\<not> interactive ?a" by (simp add: default_args_def)
  then obtain c where c: "snd (resolve_config object_apps_world ?a) = Inr c"
    using load_config_total [of object_apps_world ?a] resolve_config_plain by metis
  have "map_sum id apps_file (snd (resolve_config object_apps_world ?a)) = Inr ''apps.json''"
    by code_simp
  with c have path: "apps_file c = ''apps.json''" by simp
  have met: "prerequisites_met object_apps_world" by code_simp
  have ok: "proc_ok (docker_version object_apps_world)" "proc_ok (docker_info object_apps_world)"
    "path_exists object_apps_world ''images/layered/Containerfile''"
    by code_simp+
  have invalid: "\<not> apps_file_valid object_apps_world (apps_file c)"
    by (simp add: apps_file_valid_def object_apps_world_def)
  have calm: "\<not> list_ex is_interrupted (fst (build object_apps_world ?a))" by code_simp
  from dry_run_keeps_checks [OF flag c] met ok invalid calm path show ?thesis by simp
qed

subsection \<open>The encoded apps read back\<close>


































































subsection \<open>The text of the encoder\<close>

lemma ascii_hex_char_all: "list_all (\<lambda>d. ascii (hex_char d)) [0..<16]"
  by (simp add: upt_rec [of _ "numeral _"] upt_rec [of 0] hex_char_def ascii_def)

lemma ascii_hex_char: "d < 16 \<Longrightarrow> ascii (hex_char d)"
  using ascii_hex_char_all by (simp add: list_all_iff)

lemma ascii_escape_char: "list_all ascii (escape_char c)"
proof -
  have small: "n div 16 < 16" if "n < 256" for n :: nat
    using that by simp
  have "(of_char c :: nat) div 16 < 16" by (rule small) (rule nat_of_char_less_256)
  then show ?thesis
    by (simp add: escape_char_def Let_def ascii_def [of c] ascii_hex_char) (simp add: ascii_def)
qed

lemma ascii_dumps_string: "list_all ascii (dumps_string s)"
proof -
  have "list_all ascii (concat (map escape_char s))"
    by (induction s) (simp_all add: ascii_escape_char)
  then show ?thesis by (simp add: dumps_string_def ascii_def)
qed

lemma ascii_digit_char: "d < 10 \<Longrightarrow> ascii (digit_char d)"
  by (simp add: digit_char_def ascii_def)

lemma ascii_show_nat: "list_all ascii (show_nat n)"
proof (induction n rule: show_nat.induct)
  case (1 n)
  show ?case
  proof (cases "n < 10")
    case True
    then show ?thesis by (subst show_nat.simps) (simp add: ascii_digit_char)
  next
    case False
    with 1 show ?thesis by (subst show_nat.simps) (simp add: ascii_digit_char)
  qed
qed

lemma ascii_show_int: "list_all ascii (show_int i)"
  using ascii_show_nat by (simp add: show_int_def ascii_def)

lemma ascii_newline_indent: "list_all ascii (newline_indent l)"
  by (simp add: newline_indent_def ascii_def list_all_iff)

lemma ascii_dumps:
  "list_all ascii (dumps_at l v)"
  "list_all ascii (dumps_items l xs)"
  "list_all ascii (dumps_members l ms)"
  by (induction l v and l xs and l ms rule: dumps_at_dumps_items_dumps_members.induct)
    (simp_all add: ascii_show_int ascii_dumps_string ascii_newline_indent, simp_all add: ascii_def)

text \<open>Every character of the text \<open>json.dumps\<close> returns is ASCII.\<close>

theorem json_dumps_ascii: "list_all ascii (json_dumps v)"
  by (simp add: json_dumps_def ascii_dumps)

end
